theory Spec2Isabelle
  imports Main "HOL-Library.Sublist"
begin

section \<open>Strings\<close>

text \<open>
  Source strings are sequences of code units; they are modelled as \<^typ>\<open>string\<close>
  (code units below 256). The characters the source names explicitly are given names here.
\<close>

definition nl :: char where "nl = CHR 0x0A"
definition tab :: char where "tab = CHR 0x09"
definition cr :: char where "cr = CHR 0x0D"
definition sp :: char where "sp = CHR 0x20"

section \<open>utilities: trimming newlines\<close>

text \<open>\<^verbatim>\<open>string.replace(/^\n*/, '')\<close>: the pattern is anchored at the start of the whole
  string and takes the longest run of newlines there.\<close>

definition trimLeadingNewlines :: "string \<Rightarrow> string" where
  "trimLeadingNewlines s = dropWhile (\<lambda>c. c = nl) s"

text \<open>The \<^verbatim>\<open>while (indexEnd > 0 && string[indexEnd - 1] === '\n') indexEnd--\<close> loop,
  started at \<^verbatim>\<open>string.length\<close>.\<close>

fun trimTrailingIndex :: "string \<Rightarrow> nat \<Rightarrow> nat" where
  "trimTrailingIndex s 0 = 0"
| "trimTrailingIndex s (Suc i) = (if s ! i = nl then trimTrailingIndex s i else Suc i)"

definition trimTrailingNewlines :: "string \<Rightarrow> string" where
  "trimTrailingNewlines s = take (trimTrailingIndex s (length s)) s"

definition trimNewlines :: "string \<Rightarrow> string" where
  "trimNewlines s = trimTrailingNewlines (trimLeadingNewlines s)"

section \<open>The join of the conversion engine\<close>

definition join :: "string \<Rightarrow> string \<Rightarrow> string" where
  "join output replacement =
     (let s1 = trimTrailingNewlines output;
          s2 = trimLeadingNewlines replacement;
          nls = max (length output - length s1) (length replacement - length s2);
          separator = take nls [nl, nl]
      in s1 @ separator @ s2)"

section \<open>Properties of the join\<close>











section \<open>Character classes and trimming\<close>

definition backslash :: char where "backslash = CHR 0x5C"
definition backtick :: char where "backtick = CHR 0x60"

text \<open>The class \<^verbatim>\<open>\s\<close> of the regular expressions and the characters removed by
  \<^verbatim>\<open>String.prototype.trim\<close> (white space and line terminators), for code units below 256:
  tab, line feed, vertical tab, form feed, carriage return, space and no-break space.\<close>

definition isWhitespace :: "char \<Rightarrow> bool" where
  "isWhitespace c =
     (c = CHR 0x09 \<or> c = CHR 0x0A \<or> c = CHR 0x0B \<or> c = CHR 0x0C \<or> c = CHR 0x0D
      \<or> c = CHR 0x20 \<or> c = CHR 0xA0)"

text \<open>Line terminators, after which \<^verbatim>\<open>^\<close> matches under the \<^verbatim>\<open>m\<close> flag and which
  \<^verbatim>\<open>.\<close> does not match.\<close>

definition isLineTerminator :: "char \<Rightarrow> bool" where
  "isLineTerminator c = (c = nl \<or> c = cr)"

text \<open>The class \<^verbatim>\<open>\d\<close>.\<close>

definition isDigit :: "char \<Rightarrow> bool" where
  "isDigit c = (c \<in> set ''0123456789'')"

definition trimStart :: "string \<Rightarrow> string" where
  "trimStart s = dropWhile isWhitespace s"

definition trimEnd :: "string \<Rightarrow> string" where
  "trimEnd s = rev (dropWhile isWhitespace (rev s))"

definition trim :: "string \<Rightarrow> string" where
  "trim s = trimEnd (trimStart s)"

text \<open>\<^verbatim>\<open>repeat(character, count)\<close>, that is \<^verbatim>\<open>Array(count + 1).join(character)\<close>.\<close>

definition repeat :: "string \<Rightarrow> nat \<Rightarrow> string" where
  "repeat character count = concat (replicate count character)"

section \<open>Options\<close>

datatype HeadingStyle = Setext | Atx
datatype ListItemIndent = IndentTab | IndentSpace
datatype CodeBlockStyle = Indented | Fenced
datatype LinkStyle = Inlined | Referenced
datatype LinkReferenceStyle = Full | Collapsed | Shortcut
datatype LinkReferenceDeduplication = DedupNone | DedupFull
datatype HtmlRetentionMode = Standard | PreserveAll | MarkdownIncludingHtml

text \<open>The options a rule receives. The rule table \<^verbatim>\<open>rules\<close> and the four pluggable replacement
  functions of the source's options object are arguments of the constructor of the rule table
  (see \<open>newRules\<close> below), since a record cannot hold functions over itself.\<close>

record TurnishOptions =
  headingStyle :: HeadingStyle
  hr :: string
  bulletListMarker :: string
  listMarkerSpaceCount :: nat
  listItemIndent :: ListItemIndent
  listItemIndentSpaceCount :: nat
  codeBlockStyle :: CodeBlockStyle
  fence :: string
  emDelimiter :: string
  strongDelimiter :: string
  linkStyle :: LinkStyle
  linkReferenceStyle :: LinkReferenceStyle
  linkReferenceDeduplication :: LinkReferenceDeduplication
  br :: string
  preformattedCode :: bool
  htmlRetentionMode :: HtmlRetentionMode

definition defaultOptions :: TurnishOptions where
  "defaultOptions = \<lparr>
     headingStyle = Atx,
     hr = ''---'',
     bulletListMarker = ''-'',
     listMarkerSpaceCount = 1,
     listItemIndent = IndentSpace,
     listItemIndentSpaceCount = 4,
     codeBlockStyle = Fenced,
     fence = [backtick, backtick, backtick],
     emDelimiter = ''*'',
     strongDelimiter = ''**'',
     linkStyle = Inlined,
     linkReferenceStyle = Full,
     linkReferenceDeduplication = DedupFull,
     br = ''  '',
     preformattedCode = False,
     htmlRetentionMode = Standard \<rparr>"

section \<open>Document nodes\<close>

text \<open>The tree the engine reads: an element has a node name (upper case in an HTML document),
  its attributes in order and its children; text, CDATA and comment nodes have a value.\<close>

datatype node =
    Element string "(string \<times> string) list" "node list"
  | Text string
  | CDATASection string
  | Comment string
  | Document "node list"
  | DocumentType string
  | DocumentFragment "node list"

fun nodeType :: "node \<Rightarrow> nat" where
  "nodeType (Element _ _ _) = 1"
| "nodeType (Text _) = 3"
| "nodeType (CDATASection _) = 4"
| "nodeType (Comment _) = 8"
| "nodeType (Document _) = 9"
| "nodeType (DocumentType _) = 10"
| "nodeType (DocumentFragment _) = 11"

fun nodeName :: "node \<Rightarrow> string" where
  "nodeName (Element name _ _) = name"
| "nodeName (Text _) = ''#text''"
| "nodeName (CDATASection _) = ''#cdata-section''"
| "nodeName (Comment _) = ''#comment''"
| "nodeName (Document _) = ''#document''"
| "nodeName (DocumentType name) = name"
| "nodeName (DocumentFragment _) = ''#document-fragment''"

fun childNodes :: "node \<Rightarrow> node list" where
  "childNodes (Element _ _ cs) = cs"
| "childNodes (Document cs) = cs"
| "childNodes (DocumentFragment cs) = cs"
| "childNodes _ = []"

fun attributes :: "node \<Rightarrow> (string \<times> string) list" where
  "attributes (Element _ as _) = as"
| "attributes _ = []"

text \<open>\<^verbatim>\<open>getAttribute\<close>: the value of the first attribute of that name, or null.\<close>

definition getAttribute :: "node \<Rightarrow> string \<Rightarrow> string option" where
  "getAttribute n name = map_of (attributes n) name"

fun nodeValue :: "node \<Rightarrow> string option" where
  "nodeValue (Text v) = Some v"
| "nodeValue (CDATASection v) = Some v"
| "nodeValue (Comment v) = Some v"
| "nodeValue _ = None"

text \<open>\<^verbatim>\<open>textContent\<close>: the value of a text, CDATA or comment node; for an element or a
  fragment the concatenated text of its descendants, comments excluded; null for a document
  and a document type.\<close>

fun descendantText :: "node \<Rightarrow> string" where
  "descendantText (Element _ _ cs) = concat (map descendantText cs)"
| "descendantText (DocumentFragment cs) = concat (map descendantText cs)"
| "descendantText (Document cs) = concat (map descendantText cs)"
| "descendantText (Text v) = v"
| "descendantText (CDATASection v) = v"
| "descendantText (Comment _) = []"
| "descendantText (DocumentType _) = []"

fun textContent :: "node \<Rightarrow> string option" where
  "textContent (Comment v) = Some v"
| "textContent (Document _) = None"
| "textContent (DocumentType _) = None"
| "textContent n = Some (descendantText n)"

definition firstChild :: "node \<Rightarrow> node option" where
  "firstChild n = (case childNodes n of [] \<Rightarrow> None | c # _ \<Rightarrow> Some c)"

text \<open>\<^verbatim>\<open>getElementsByTagName\<close>: the element descendants with that node name, in document
  order, the node itself excluded.\<close>

fun elementsNamed :: "string \<Rightarrow> node \<Rightarrow> node list" where
  "elementsNamed tagName (Element name as cs) =
     (if name = tagName then [Element name as cs] else []) @ concat (map (elementsNamed tagName) cs)"
| "elementsNamed tagName _ = []"

definition getElementsByTagName :: "node \<Rightarrow> string \<Rightarrow> node list" where
  "getElementsByTagName n tagName = concat (map (elementsNamed tagName) (childNodes n))"

section \<open>utilities: element classes\<close>

definition blockElements :: "string list" where
  "blockElements = [
    ''ADDRESS'', ''ARTICLE'', ''ASIDE'', ''AUDIO'', ''BLOCKQUOTE'', ''BODY'', ''CANVAS'',
    ''CENTER'', ''DD'', ''DIR'', ''DIV'', ''DL'', ''DT'', ''FIELDSET'', ''FIGCAPTION'', ''FIGURE'',
    ''FOOTER'', ''FORM'', ''FRAMESET'', ''H1'', ''H2'', ''H3'', ''H4'', ''H5'', ''H6'', ''HEADER'',
    ''HGROUP'', ''HR'', ''HTML'', ''ISINDEX'', ''LI'', ''MAIN'', ''MENU'', ''NAV'', ''NOFRAMES'',
    ''NOSCRIPT'', ''OL'', ''OUTPUT'', ''P'', ''PRE'', ''SECTION'', ''TABLE'', ''TBODY'', ''TD'',
    ''TFOOT'', ''TH'', ''THEAD'', ''TR'', ''UL'']"

definition voidElements :: "string list" where
  "voidElements = [
    ''AREA'', ''BASE'', ''BR'', ''COL'', ''COMMAND'', ''EMBED'', ''HR'', ''IMG'', ''INPUT'',
    ''KEYGEN'', ''LINK'', ''META'', ''PARAM'', ''SOURCE'', ''TRACK'', ''WBR'']"

definition meaningfulWhenBlankElements :: "string list" where
  "meaningfulWhenBlankElements = [
    ''A'', ''TABLE'', ''THEAD'', ''TBODY'', ''TFOOT'', ''TH'', ''TD'', ''IFRAME'', ''SCRIPT'',
    ''AUDIO'', ''VIDEO'']"

definition standardMarkdownElements :: "string list" where
  "standardMarkdownElements = [
    ''P'', ''BR'', ''H1'', ''H2'', ''H3'', ''H4'', ''H5'', ''H6'', ''BLOCKQUOTE'',
    ''UL'', ''OL'', ''LI'', ''PRE'', ''CODE'', ''HR'', ''A'', ''EM'', ''I'', ''STRONG'',
    ''B'', ''IMG'', ''DIV'', ''SPAN'', ''TABLE'', ''THEAD'', ''TBODY'', ''TR'', ''TH'', ''TD'']"

definition is' :: "node \<Rightarrow> string list \<Rightarrow> bool" where
  "is' n tagNames = (nodeName n \<in> set tagNames)"

definition has :: "node \<Rightarrow> string list \<Rightarrow> bool" where
  "has n tagNames =
     list_ex (\<lambda>tagName. if nodeType n \<noteq> 1 then False else getElementsByTagName n tagName \<noteq> [])
       tagNames"

text \<open>\<^verbatim>\<open>isBlock(node)\<close> of the utilities and the function \<^verbatim>\<open>isBlank(node)\<close> of the node module
  are named \<open>isBlockNode\<close> and \<open>isBlankNode\<close>; the fields of the classified node keep the
  names \<open>isBlock\<close> and \<open>isBlank\<close>.\<close>

definition isBlockNode :: "node \<Rightarrow> bool" where "isBlockNode n = is' n blockElements"
definition isVoid :: "node \<Rightarrow> bool" where "isVoid n = is' n voidElements"
definition hasVoid :: "node \<Rightarrow> bool" where "hasVoid n = has n voidElements"
definition isMeaningfulWhenBlank :: "node \<Rightarrow> bool" where
  "isMeaningfulWhenBlank n = is' n meaningfulWhenBlankElements"
definition hasMeaningfulWhenBlank :: "node \<Rightarrow> bool" where
  "hasMeaningfulWhenBlank n = has n meaningfulWhenBlankElements"

section \<open>node: the classification of a node\<close>

record FlankingWhitespace =
  leading :: string
  trailing :: string

record EdgeWhitespace = FlankingWhitespace +
  leadingAscii :: string
  leadingNonAscii :: string
  trailingNonAscii :: string
  trailingAscii :: string

text \<open>A node as rules see it: the node, its ancestors (the parent first), its siblings, and the
  classification the engine attaches to it.\<close>

record ExtendedNode =
  node :: node
  ancestors :: "node list"
  previousSibling :: "node option"
  nextSibling :: "node option"
  isBlock :: bool
  isCode :: bool
  isBlank :: bool
  flankingWhitespace :: FlankingWhitespace

definition parentNode :: "ExtendedNode \<Rightarrow> node option" where
  "parentNode e = (case ancestors e of [] \<Rightarrow> None | p # _ \<Rightarrow> Some p)"

text \<open>\<^verbatim>\<open>string || ''\<close> on a value that may be null.\<close>

definition orEmpty :: "string option \<Rightarrow> string" where
  "orEmpty v = (case v of None \<Rightarrow> [] | Some s \<Rightarrow> s)"

definition isBlankNode :: "node \<Rightarrow> bool" where
  "isBlankNode n =
     (\<not> isVoid n \<and>
      \<not> isMeaningfulWhenBlank n \<and>
      list_all isWhitespace (orEmpty (textContent n)) \<and>
      \<not> hasVoid n \<and>
      \<not> hasMeaningfulWhenBlank n)"

definition isAsciiWhitespace :: "char \<Rightarrow> bool" where
  "isAsciiWhitespace c = (c = sp \<or> c = tab \<or> c = cr \<or> c = nl)"

text \<open>The pattern of \<^verbatim>\<open>edgeWhitespace\<close> matches every string: the leading white space is
  split into its longest ASCII prefix and the rest; when a character that is not white space
  occurs, the trailing white space is split into its longest ASCII suffix and what precedes
  it, and otherwise the whole string is leading and the trailing groups are empty.\<close>

definition edgeWhitespace :: "string \<Rightarrow> EdgeWhitespace" where
  "edgeWhitespace s =
     (let la = takeWhile isAsciiWhitespace s;
          lna = takeWhile isWhitespace (dropWhile isAsciiWhitespace s);
          rest = dropWhile isWhitespace (dropWhile isAsciiWhitespace s);
          t = (if rest = [] then [] else rev (takeWhile isWhitespace (rev rest)));
          ta = rev (takeWhile isAsciiWhitespace (rev t));
          tna = take (length t - length ta) t
      in \<lparr> leading = la @ lna, trailing = t, leadingAscii = la, leadingNonAscii = lna,
           trailingNonAscii = tna, trailingAscii = ta \<rparr>)"

datatype Side = Left | Right

definition sideTest :: "Side \<Rightarrow> string \<Rightarrow> bool" where
  "sideTest side s =
     (case side of
        Left \<Rightarrow> s \<noteq> [] \<and> last s = sp
      | Right \<Rightarrow> s \<noteq> [] \<and> hd s = sp)"

definition isFlankedByWhitespace ::
  "Side \<Rightarrow> node option \<Rightarrow> node option \<Rightarrow> TurnishOptions \<Rightarrow> bool" where
  "isFlankedByWhitespace side prev next' options =
     (case (case side of Left \<Rightarrow> prev | Right \<Rightarrow> next') of
        None \<Rightarrow> False
      | Some sibling \<Rightarrow>
          if nodeType sibling = 3 then sideTest side (orEmpty (nodeValue sibling))
          else if preformattedCode options \<and> nodeName sibling = ''CODE'' then False
          else if nodeType sibling = 1 \<and> \<not> isBlockNode sibling
            then sideTest side (orEmpty (textContent sibling))
          else False)"

definition flankingWhitespaceOf ::
  "node \<Rightarrow> bool \<Rightarrow> bool \<Rightarrow> node option \<Rightarrow> node option \<Rightarrow> TurnishOptions \<Rightarrow> FlankingWhitespace" where
  "flankingWhitespaceOf n nIsBlock nIsCode prev next' options =
     (if nIsBlock \<or> (preformattedCode options \<and> nIsCode) then \<lparr> leading = [], trailing = [] \<rparr>
      else
        let edges = edgeWhitespace (orEmpty (textContent n));
            l = (if leadingAscii edges \<noteq> [] \<and> isFlankedByWhitespace Left prev next' options
                 then leadingNonAscii edges else leading edges);
            t = (if trailingAscii edges \<noteq> [] \<and> isFlankedByWhitespace Right prev next' options
                 then trailingNonAscii edges else trailing edges)
        in \<lparr> leading = l, trailing = t \<rparr>)"

text \<open>\<^verbatim>\<open>ExtendedNode(node, options)\<close>. The source writes the classification into the node
  and reads the parent's \<^verbatim>\<open>isCode\<close> from the parent node; here the parent's flag and the
  position of the node in the tree are arguments.\<close>

definition extendNode ::
  "node \<Rightarrow> bool \<Rightarrow> node list \<Rightarrow> node option \<Rightarrow> node option \<Rightarrow> TurnishOptions \<Rightarrow> ExtendedNode" where
  "extendNode n parentIsCode ancs prev next' options =
     (let b = isBlockNode n;
          c = (nodeName n = ''CODE'' \<or> parentIsCode)
      in \<lparr> node = n, ancestors = ancs, previousSibling = prev, nextSibling = next',
           isBlock = b, isCode = c, isBlank = isBlankNode n,
           flankingWhitespace = flankingWhitespaceOf n b c prev next' options \<rparr>)"

section \<open>rules: the rule table\<close>

datatype error = TypeError string | SyntaxError string | Thrown string

text \<open>\<^verbatim>\<open>String.prototype.toLowerCase\<close> on code units below 256: the letters A to Z and the
  accented capitals 0xC0 to 0xDE (the multiplication sign 0xD7 apart) move up by 32.\<close>

definition toLowerChar :: "char \<Rightarrow> char" where
  "toLowerChar c =
     (let k = (of_char c :: nat)
      in if (65 \<le> k \<and> k \<le> 90) \<or> (192 \<le> k \<and> k \<le> 222 \<and> k \<noteq> 215)
         then char_of (k + 32) else c)"

definition toLowerCase :: "string \<Rightarrow> string" where
  "toLowerCase s = map toLowerChar s"

text \<open>A replacement function returns the replacement text, or fails with an error.\<close>

type_synonym RuleReplacementFunction =
  "string \<Rightarrow> ExtendedNode \<Rightarrow> TurnishOptions \<Rightarrow> error + string"

type_synonym RuleFilterFunction = "ExtendedNode \<Rightarrow> TurnishOptions \<Rightarrow> bool"

text \<open>A filter is a tag name, a list of tag names or a predicate; \<open>FilterOther\<close> stands for a
  filter that is absent or is any other value.\<close>

datatype RuleFilter =
    FilterString string
  | FilterArray "string list"
  | FilterFunction RuleFilterFunction
  | FilterOther

text \<open>A rule is a filter, a replacement and an optional \<^verbatim>\<open>append\<close>, all of them functions of
  their arguments alone; the one rule with state of its own, the reference-link rule, is a
  constructor of its own, and its state is threaded through the engine explicitly.\<close>

datatype Rule =
    Rule RuleFilter RuleReplacementFunction "(TurnishOptions \<Rightarrow> string) option"
  | referenceLinkRule

text \<open>The filter of the reference-link rule.\<close>

definition referenceLinkFilter :: RuleFilterFunction where
  "referenceLinkFilter e options =
     (linkStyle options = Referenced \<and>
      nodeName (node e) = ''A'' \<and>
      orEmpty (getAttribute (node e) ''href'') \<noteq> [])"

fun ruleFilter :: "Rule \<Rightarrow> RuleFilter" where
  "ruleFilter (Rule f _ _) = f"
| "ruleFilter referenceLinkRule = FilterFunction referenceLinkFilter"

record Rules =
  options :: TurnishOptions
  keepRules :: "Rule list"
  removeRules :: "Rule list"
  blankRule :: Rule
  keepReplacement :: RuleReplacementFunction
  markdownIncludingHtmlReplacement :: RuleReplacementFunction
  defaultRule :: Rule
  array :: "Rule list"

text \<open>\<open>keepRules\<close> and \<open>removeRules\<close> are the private lists \<^verbatim>\<open>_keep\<close> and \<^verbatim>\<open>_remove\<close>.
  \<^verbatim>\<open>add\<close>, \<^verbatim>\<open>keep\<close> and \<^verbatim>\<open>remove\<close> put the new rule at the front with \<^verbatim>\<open>unshift\<close>.\<close>

definition add :: "string \<Rightarrow> Rule \<Rightarrow> Rules \<Rightarrow> Rules" where
  "add key rule rs = rs\<lparr> array := rule # array rs \<rparr>"

definition keep :: "RuleFilter \<Rightarrow> Rules \<Rightarrow> Rules" where
  "keep f rs = rs\<lparr> keepRules := Rule f (keepReplacement rs) None # keepRules rs \<rparr>"

definition remove :: "RuleFilter \<Rightarrow> Rules \<Rightarrow> Rules" where
  "remove f rs = rs\<lparr> removeRules := Rule f (\<lambda>_ _ _. Inr []) None # removeRules rs \<rparr>"

definition filterValue :: "Rule \<Rightarrow> ExtendedNode \<Rightarrow> TurnishOptions \<Rightarrow> error + bool" where
  "filterValue rule e opts =
     (case ruleFilter rule of
        FilterString f \<Rightarrow> Inr (f = toLowerCase (nodeName (node e)))
      | FilterArray fs \<Rightarrow> Inr (toLowerCase (nodeName (node e)) \<in> set fs)
      | FilterFunction f \<Rightarrow> Inr (f e opts)
      | FilterOther \<Rightarrow>
          Inl (TypeError (backtick # ''filter'' @ backtick #
                 '' needs to be a string, array, or function'')))"

fun findRule :: "Rule list \<Rightarrow> ExtendedNode \<Rightarrow> TurnishOptions \<Rightarrow> error + Rule option" where
  "findRule [] e opts = Inr None"
| "findRule (rule # rules) e opts =
     (case filterValue rule e opts of
        Inl err \<Rightarrow> Inl err
      | Inr True \<Rightarrow> Inr (Some rule)
      | Inr False \<Rightarrow> findRule rules e opts)"

definition otherAttribute :: "string list \<Rightarrow> (string \<times> string) list \<Rightarrow> bool" where
  "otherAttribute allowed as = list_ex (\<lambda>a. toLowerCase (fst a) \<notin> set allowed) as"

definition isUnsupportedElement :: "ExtendedNode \<Rightarrow> bool" where
  "isUnsupportedElement e =
     (let n = node e; name = nodeName n
      in if name = ''PRE'' \<and>
            (case firstChild n of
               None \<Rightarrow> False
             | Some c \<Rightarrow> nodeName c = ''CODE'' \<and> otherAttribute [''class''] (attributes c))
         then True
         else if attributes n \<noteq> [] then
           (if name = ''IMG'' then otherAttribute [''src'', ''alt'', ''title''] (attributes n)
            else if name = ''A'' then otherAttribute [''href'', ''title''] (attributes n)
            else if name = ''CODE'' \<and>
                    (case parentNode e of None \<Rightarrow> False | Some p \<Rightarrow> nodeName p = ''PRE'')
              then otherAttribute [''class''] (attributes n)
            else True)
         else name \<notin> set standardMarkdownElements)"

definition forNode :: "Rules \<Rightarrow> ExtendedNode \<Rightarrow> error + Rule" where
  "forNode rs e =
     (if isBlank e then Inr (blankRule rs)
      else if htmlRetentionMode (options rs) = PreserveAll \<and> isUnsupportedElement e
        then Inr (Rule FilterOther (keepReplacement rs) None)
      else if htmlRetentionMode (options rs) = MarkdownIncludingHtml \<and> isUnsupportedElement e
        then Inr (Rule FilterOther (markdownIncludingHtmlReplacement rs) None)
      else
        (case findRule (array rs) e (options rs) of
           Inl err \<Rightarrow> Inl err
         | Inr (Some rule) \<Rightarrow> Inr rule
         | Inr None \<Rightarrow>
            (case findRule (keepRules rs) e (options rs) of
               Inl err \<Rightarrow> Inl err
             | Inr (Some rule) \<Rightarrow> Inr rule
             | Inr None \<Rightarrow>
                (case findRule (removeRules rs) e (options rs) of
                   Inl err \<Rightarrow> Inl err
                 | Inr (Some rule) \<Rightarrow> Inr rule
                 | Inr None \<Rightarrow> Inr (defaultRule rs)))))"

section \<open>The default replacement functions of the options\<close>

definition blankReplacement :: RuleReplacementFunction where
  "blankReplacement content e opts = Inr (if isBlock e then [nl, nl] else [])"

definition defaultReplacement :: RuleReplacementFunction where
  "defaultReplacement content e opts =
     Inr (if isBlock e then [nl, nl] @ content @ [nl, nl] else content)"

section \<open>Properties of rule resolution\<close>

text \<open>Whether the filter of a rule accepts a node, for a well-formed filter.\<close>

definition filterMatches :: "Rule \<Rightarrow> ExtendedNode \<Rightarrow> TurnishOptions \<Rightarrow> bool" where
  "filterMatches rule e opts = (case filterValue rule e opts of Inl _ \<Rightarrow> False | Inr b \<Rightarrow> b)"

definition validFilters :: "Rule list \<Rightarrow> bool" where
  "validFilters rules = list_all (\<lambda>r. ruleFilter r \<noteq> FilterOther) rules"

text \<open>A table for examples: a paragraph rule and the reference-link rule, no keep or remove
  filters; and an inline \<^verbatim>\<open><del>\<close> element, classified as neither block, code nor blank.\<close>

definition exampleRules :: Rules where
  "exampleRules = \<lparr> options = defaultOptions, keepRules = [], removeRules = [],
      blankRule = Rule FilterOther blankReplacement None,
      keepReplacement = (\<lambda>content e opts. Inr content),
      markdownIncludingHtmlReplacement = (\<lambda>content e opts. Inr content),
      defaultRule = Rule FilterOther defaultReplacement None,
      array = [Rule (FilterString ''p'') (\<lambda>content e opts. Inr ([nl, nl] @ content @ [nl, nl])) None,
               referenceLinkRule] \<rparr>"

definition exampleNode :: ExtendedNode where
  "exampleNode = \<lparr> node = Element ''DEL'' [] [Text ''x''], ancestors = [], previousSibling = None,
      nextSibling = None, isBlock = False, isCode = False, isBlank = False,
      flankingWhitespace = \<lparr> leading = [], trailing = [] \<rparr> \<rparr>"

definition strikethrough :: Rule where
  "strikethrough = Rule (FilterArray [''del'', ''s'', ''strike''])
     (\<lambda>content e opts. Inr (''~~'' @ content @ ''~~'')) None"

lemma filterValue_valid:
  "ruleFilter r \<noteq> FilterOther \<Longrightarrow> filterValue r e opts = Inr (filterMatches r e opts)"
  by (cases "ruleFilter r") (simp_all add: filterValue_def filterMatches_def)

lemma findRule_find:
  "validFilters rules \<Longrightarrow> findRule rules e opts = Inr (find (\<lambda>r. filterMatches r e opts) rules)"
  by (induction rules) (simp_all add: validFilters_def filterValue_valid)

lemma filterMatches_value:
  "filterMatches r e opts \<Longrightarrow> filterValue r e opts = Inr True"
  by (auto simp: filterMatches_def split: sum.splits)

text \<open>
  C5. Rule resolution returns one rule under a fixed precedence: the blank rule for a blank
  node; else the retention replacement when a retention mode is on and the node is
  unsupported; else the first rule of the combined list whose filter matches, where \<open>add\<close>
  puts a rule at the front, so that an added rule whose filter matches is returned whatever
  the rules after it are; else the first matching keep rule and then the first matching
  remove rule, each list newest first; else the default rule. A filter that is not a string,
  an array or a function makes the resolution fail with a type error, so the filters of the
  three lists are taken to be well-formed.
\<close>

theorem forNode_precedence:
  assumes "validFilters (array rs)" and "validFilters (keepRules rs)"
    and "validFilters (removeRules rs)"
  shows "forNode rs e = Inr
      (if isBlank e then blankRule rs
       else if htmlRetentionMode (options rs) = PreserveAll \<and> isUnsupportedElement e
         then Rule FilterOther (keepReplacement rs) None
       else if htmlRetentionMode (options rs) = MarkdownIncludingHtml \<and> isUnsupportedElement e
         then Rule FilterOther (markdownIncludingHtmlReplacement rs) None
       else case find (\<lambda>r. filterMatches r e (options rs)) (array rs) of
           Some r \<Rightarrow> r
         | None \<Rightarrow>
            (case find (\<lambda>r. filterMatches r e (options rs)) (keepRules rs) of
               Some r \<Rightarrow> r
             | None \<Rightarrow>
                (case find (\<lambda>r. filterMatches r e (options rs)) (removeRules rs) of
                   Some r \<Rightarrow> r
                 | None \<Rightarrow> defaultRule rs)))
    \<and> array (add key rule rs) = rule # array rs
    \<and> keepRules (keep f rs) = Rule f (keepReplacement rs) None # keepRules rs
    \<and> removeRules (remove f rs) = Rule f (\<lambda>_ _ _. Inr []) None # removeRules rs
    \<and> (\<not> isBlank e \<and> \<not> (htmlRetentionMode (options rs) \<noteq> Standard \<and> isUnsupportedElement e)
          \<and> filterMatches rule e (options rs)
        \<longrightarrow> forNode (add key rule rs) e = Inr rule)"
proof -
  have main: "forNode rs e = Inr
      (if isBlank e then blankRule rs
       else if htmlRetentionMode (options rs) = PreserveAll \<and> isUnsupportedElement e
         then Rule FilterOther (keepReplacement rs) None
       else if htmlRetentionMode (options rs) = MarkdownIncludingHtml \<and> isUnsupportedElement e
         then Rule FilterOther (markdownIncludingHtmlReplacement rs) None
       else case find (\<lambda>r. filterMatches r e (options rs)) (array rs) of
           Some r \<Rightarrow> r
         | None \<Rightarrow>
            (case find (\<lambda>r. filterMatches r e (options rs)) (keepRules rs) of
               Some r \<Rightarrow> r
             | None \<Rightarrow>
                (case find (\<lambda>r. filterMatches r e (options rs)) (removeRules rs) of
                   Some r \<Rightarrow> r
                 | None \<Rightarrow> defaultRule rs)))"
    unfolding forNode_def
    by (simp add: findRule_find [OF assms(1)] findRule_find [OF assms(2)]
        findRule_find [OF assms(3)] split: option.splits)
  have added: "\<not> isBlank e \<and> \<not> (htmlRetentionMode (options rs) \<noteq> Standard \<and> isUnsupportedElement e)
          \<and> filterMatches rule e (options rs)
        \<longrightarrow> forNode (add key rule rs) e = Inr rule"
    by (auto simp: forNode_def add_def filterMatches_value)
  show ?thesis
    using main added by (simp add: add_def keep_def remove_def)
qed

lemma toLowerCase_DEL: "toLowerCase ''DEL'' = ''del''"
  by code_simp

theorem forNode_precedence_witness:
  "validFilters (array (keep (FilterString ''del'') (remove (FilterString ''del'') exampleRules)))
   \<and> validFilters (keepRules (keep (FilterString ''del'') (remove (FilterString ''del'') exampleRules)))
   \<and> validFilters (removeRules (keep (FilterString ''del'') (remove (FilterString ''del'') exampleRules)))
   \<and> \<not> isBlank exampleNode
   \<and> filterMatches strikethrough exampleNode
        (options (keep (FilterString ''del'') (remove (FilterString ''del'') exampleRules)))
   \<and> forNode (keep (FilterString ''del'') (remove (FilterString ''del'') exampleRules)) exampleNode
       = Inr (Rule (FilterString ''del'') (\<lambda>content e opts. Inr content) None)
   \<and> forNode (add ''strikethrough'' strikethrough
         (keep (FilterString ''del'') (remove (FilterString ''del'') exampleRules))) exampleNode
       = Inr strikethrough"
  using forNode_precedence [of "keep (FilterString ''del'') (remove (FilterString ''del'') exampleRules)"
      exampleNode "''strikethrough''" strikethrough FilterOther]
  by (simp add: exampleRules_def exampleNode_def keep_def remove_def validFilters_def
      filterMatches_def filterValue_def referenceLinkFilter_def defaultOptions_def
      strikethrough_def toLowerCase_DEL)

section \<open>default-rules: emphasis and strong\<close>

definition emphasis_replacement :: "string \<Rightarrow> ExtendedNode \<Rightarrow> TurnishOptions \<Rightarrow> string" where
  "emphasis_replacement content e opts =
     (let content = trim content
      in if content = [] then [] else emDelimiter opts @ content @ emDelimiter opts)"

definition strong_replacement :: "string \<Rightarrow> ExtendedNode \<Rightarrow> TurnishOptions \<Rightarrow> string" where
  "strong_replacement content e opts =
     (let content = trim content
      in if content = [] then [] else strongDelimiter opts @ content @ strongDelimiter opts)"

definition defaultRules_emphasis :: Rule where
  "defaultRules_emphasis = Rule (FilterArray [''em'', ''i''])
     (\<lambda>content e opts. Inr (emphasis_replacement content e opts)) None"

definition defaultRules_strong :: Rule where
  "defaultRules_strong = Rule (FilterArray [''strong'', ''b''])
     (\<lambda>content e opts. Inr (strong_replacement content e opts)) None"

lemma trimEnd_decomp: "s = trimEnd s @ rev (takeWhile isWhitespace (rev s))"
proof -
  have "rev (dropWhile isWhitespace (rev s)) @ rev (takeWhile isWhitespace (rev s))
      = rev (takeWhile isWhitespace (rev s) @ dropWhile isWhitespace (rev s))"
    by (simp only: rev_append)
  also have "\<dots> = rev (rev s)" by (simp only: takeWhile_dropWhile_id)
  also have "\<dots> = s" by simp
  finally show ?thesis by (simp add: trimEnd_def)
qed

lemma trim_decomp:
  "content = takeWhile isWhitespace content @ trim content
       @ rev (takeWhile isWhitespace (rev (trimStart content)))"
proof -
  have "content = takeWhile isWhitespace content @ trimStart content"
    by (simp add: trimStart_def)
  also have "trimStart content = trim content @ rev (takeWhile isWhitespace (rev (trimStart content)))"
    unfolding trim_def by (rule trimEnd_decomp)
  finally show ?thesis by simp
qed

lemma trimStart_hd: "trimStart s \<noteq> [] \<Longrightarrow> \<not> isWhitespace (hd (trimStart s))"
  unfolding trimStart_def by (rule hd_dropWhile)

lemma trimEnd_last: "trimEnd s \<noteq> [] \<Longrightarrow> \<not> isWhitespace (last (trimEnd s))"
  unfolding trimEnd_def using hd_dropWhile [of isWhitespace "rev s"]
  by (simp add: last_rev)

lemma trimEnd_hd: "trimEnd s \<noteq> [] \<Longrightarrow> hd (trimEnd s) = hd s"
  using trimEnd_decomp [of s] by (metis hd_append2)

lemma trimEnd_empty: "(trimEnd s = []) = list_all isWhitespace s"
proof -
  have "(dropWhile isWhitespace (rev s) = []) = (\<forall>x\<in>set (rev s). isWhitespace x)"
    by (rule dropWhile_eq_Nil_conv)
  then show ?thesis by (simp add: trimEnd_def list_all_iff)
qed

lemma trim_empty: "(trim content = []) = list_all isWhitespace content"
proof
  assume "trim content = []"
  then have a: "list_all isWhitespace (trimStart content)"
    by (simp add: trim_def trimEnd_empty)
  have "content = takeWhile isWhitespace content @ trimStart content"
    by (simp add: trimStart_def)
  moreover have "list_all isWhitespace (takeWhile isWhitespace content)"
    by (simp add: list_all_iff) (meson set_takeWhileD)
  ultimately show "list_all isWhitespace content"
    using a by (metis list_all_append)
next
  assume "list_all isWhitespace content"
  then have "trimStart content = []"
    by (simp add: trimStart_def list_all_iff)
  then show "trim content = []" by (simp add: trim_def trimEnd_def)
qed

lemma trim_edges:
  "trim content \<noteq> [] \<Longrightarrow> \<not> isWhitespace (hd (trim content)) \<and> \<not> isWhitespace (last (trim content))"
proof -
  assume ne: "trim content \<noteq> []"
  then have "trimStart content \<noteq> []" by (auto simp: trim_def trimEnd_def)
  then have "\<not> isWhitespace (hd (trimStart content))" by (rule trimStart_hd)
  moreover have "hd (trim content) = hd (trimStart content)"
    using ne unfolding trim_def by (rule trimEnd_hd)
  moreover have "\<not> isWhitespace (last (trim content))"
    using ne unfolding trim_def by (rule trimEnd_last)
  ultimately show ?thesis by simp
qed

text \<open>
  C9. The replacement of the emphasis rule (em, i) and of the strong rule (strong, b) is the
  empty string when the converted content trims to the empty string, that is when it holds
  white space only, and no delimiter is emitted; otherwise it is the trimmed content, which
  neither starts nor ends with white space and differs from the content by white space at
  both ends only, between the configured delimiter on both sides.
\<close>

theorem emphasis_strong_replacement:
  "emphasis_replacement content e opts =
     (if trim content = [] then [] else emDelimiter opts @ trim content @ emDelimiter opts)
   \<and> strong_replacement content e opts =
     (if trim content = [] then []
      else strongDelimiter opts @ trim content @ strongDelimiter opts)
   \<and> (trim content = []) = list_all isWhitespace content
   \<and> (trim content = [] \<or>
        (\<not> isWhitespace (hd (trim content)) \<and> \<not> isWhitespace (last (trim content))))
   \<and> (\<exists>l r. content = l @ trim content @ r \<and> list_all isWhitespace l \<and> list_all isWhitespace r)"
proof -
  have dec: "\<exists>l r. content = l @ trim content @ r \<and> list_all isWhitespace l \<and> list_all isWhitespace r"
  proof (intro exI conjI)
    show "content = takeWhile isWhitespace content @ trim content
       @ rev (takeWhile isWhitespace (rev (trimStart content)))"
      by (rule trim_decomp)
    show "list_all isWhitespace (takeWhile isWhitespace content)"
      by (simp add: list_all_iff) (meson set_takeWhileD)
    show "list_all isWhitespace (rev (takeWhile isWhitespace (rev (trimStart content))))"
      by (simp add: list_all_iff) (meson set_takeWhileD)
  qed
  have e: "emphasis_replacement content e opts =
     (if trim content = [] then [] else emDelimiter opts @ trim content @ emDelimiter opts)"
    by (simp add: emphasis_replacement_def Let_def)
  have s: "strong_replacement content e opts =
     (if trim content = [] then []
      else strongDelimiter opts @ trim content @ strongDelimiter opts)"
    by (simp add: strong_replacement_def Let_def)
  from e s trim_empty [of content] trim_edges [of content] dec show ?thesis by blast
qed

theorem emphasis_strong_replacement_witness:
  "emphasis_replacement '' a b  '' exampleNode defaultOptions = ''*a b*''
   \<and> strong_replacement '' a b  '' exampleNode defaultOptions = ''**a b**''
   \<and> emphasis_replacement [sp, nl, tab] exampleNode defaultOptions = []
   \<and> strong_replacement [sp, nl, tab] exampleNode defaultOptions = []"
proof -
  have t1: "trim '' a b  '' = ''a b''"
    by (simp add: trim_def trimEnd_def trimStart_def isWhitespace_def)
  have t2: "trim [sp, nl, tab] = []"
    by (simp add: trim_def trimEnd_def trimStart_def isWhitespace_def sp_def nl_def tab_def)
  show ?thesis
    using emphasis_strong_replacement [of "'' a b  ''" exampleNode defaultOptions]
      emphasis_strong_replacement [of "[sp, nl, tab]" exampleNode defaultOptions]
    by (simp add: t1 t2 defaultOptions_def)
qed

section \<open>default-rules: inline code\<close>

text \<open>\<^verbatim>\<open>content.replace(/\r?\n|\r/g, ' ')\<close>: a carriage return followed by a line feed, a
  line feed and a carriage return each become one space.\<close>

fun collapseLineBreaks :: "string \<Rightarrow> string" where
  "collapseLineBreaks [] = []"
| "collapseLineBreaks [c] = (if c = cr \<or> c = nl then [sp] else [c])"
| "collapseLineBreaks (c # d # ds) =
     (if c = cr \<and> d = nl then sp # collapseLineBreaks ds
      else if c = cr \<or> c = nl then sp # collapseLineBreaks (d # ds)
      else c # collapseLineBreaks (d # ds))"

text \<open>\<^verbatim>\<open>trimmed.match(/`+/gm) || []\<close>: the maximal runs of backticks, from left to right.\<close>

function backtickRuns :: "string \<Rightarrow> string list" where
  "backtickRuns [] = []"
| "backtickRuns (c # cs) =
     (if c = backtick
      then (c # takeWhile (\<lambda>x. x = backtick) cs) # backtickRuns (dropWhile (\<lambda>x. x = backtick) cs)
      else backtickRuns cs)"
  by pat_completeness auto
termination
  by (relation "measure length") (auto simp: length_dropWhile_le less_Suc_eq_le)

definition maxLength :: "string list \<Rightarrow> nat" where
  "maxLength ms = foldr (\<lambda>m acc. max (length m) acc) ms 0"

lemma maxLength_ge: "d \<in> set ms \<Longrightarrow> length d \<le> maxLength ms"
  unfolding maxLength_def by (induction ms) auto

text \<open>\<^verbatim>\<open>while (matches.includes(delimiter)) delimiter = delimiter + '`'\<close>.\<close>

function growDelimiter :: "string list \<Rightarrow> string \<Rightarrow> string" where
  "growDelimiter matches delimiter =
     (if delimiter \<in> set matches then growDelimiter matches (delimiter @ [backtick])
      else delimiter)"
  by pat_completeness auto
termination
proof (relation "measure (\<lambda>(ms, d). Suc (maxLength ms) - length d)")
  show "wf (measure (\<lambda>(ms, d). Suc (maxLength ms) - length d))" by simp
next
  fix matches :: "string list" and delimiter :: string
  assume "delimiter \<in> set matches"
  then have "length delimiter \<le> maxLength matches" by (rule maxLength_ge)
  then show "((matches, delimiter @ [backtick]), (matches, delimiter))
      \<in> measure (\<lambda>(ms, d). Suc (maxLength ms) - length d)"
    by simp
qed

declare growDelimiter.simps [simp del]

text \<open>\<^verbatim>\<open>/^`|^ .*?[^ ].* $|`$/.test(trimmed)\<close>: the text starts with a backtick; or it starts and
  ends with a space and holds between them a character that is not a space, with no line
  terminator elsewhere between them; or it ends with a backtick.\<close>

definition paddedWithSpaces :: "string \<Rightarrow> bool" where
  "paddedWithSpaces s =
     (3 \<le> length s \<and> hd s = sp \<and> last s = sp \<and>
      (let middle = butlast (tl s)
       in list_ex (\<lambda>i. middle ! i \<noteq> sp \<and>
                        \<not> list_ex isLineTerminator (take i middle) \<and>
                        \<not> list_ex isLineTerminator (drop (Suc i) middle))
            [0..<length middle]))"

definition needsExtraSpace :: "string \<Rightarrow> bool" where
  "needsExtraSpace s =
     ((s \<noteq> [] \<and> hd s = backtick) \<or> paddedWithSpaces s \<or> (s \<noteq> [] \<and> last s = backtick))"

definition code_delimiter :: "string \<Rightarrow> string" where
  "code_delimiter trimmed = growDelimiter (backtickRuns trimmed) [backtick]"

definition code_replacement :: "string \<Rightarrow> string" where
  "code_replacement content =
     (let trimmed = collapseLineBreaks content;
          extraSpace = (if needsExtraSpace trimmed then [sp] else []);
          delimiter = code_delimiter trimmed
      in delimiter @ extraSpace @ trimmed @ extraSpace @ delimiter)"

text \<open>The filter: a CODE element that is not the only child of a PRE element. The engine
  gives every node it converts a parent.\<close>

definition code_filter :: RuleFilterFunction where
  "code_filter e opts =
     (let hasSiblings = (previousSibling e \<noteq> None \<or> nextSibling e \<noteq> None);
          isCodeBlock = (case parentNode e of
                           None \<Rightarrow> False
                         | Some parent \<Rightarrow> nodeName parent = ''PRE'' \<and> \<not> hasSiblings)
      in nodeName (node e) = ''CODE'' \<and> \<not> isCodeBlock)"

definition defaultRules_code :: Rule where
  "defaultRules_code = Rule (FilterFunction code_filter)
     (\<lambda>content e opts. Inr (code_replacement content)) None"

text \<open>The length of the longest contiguous run of backticks of a text (0 when it has none).\<close>

definition longestBacktickRun :: "string \<Rightarrow> nat" where
  "longestBacktickRun s = maxLength (backtickRuns s)"

lemma growDelimiter_least:
  "delimiter = replicate k backtick \<Longrightarrow> 1 \<le> k \<Longrightarrow>
   (\<forall>j. 1 \<le> j \<and> j < k \<longrightarrow> replicate j backtick \<in> set matches) \<Longrightarrow>
   \<exists>n. growDelimiter matches delimiter = replicate n backtick \<and> k \<le> n
     \<and> replicate n backtick \<notin> set matches
     \<and> (\<forall>j. 1 \<le> j \<and> j < n \<longrightarrow> replicate j backtick \<in> set matches)"
proof (induction matches delimiter arbitrary: k rule: growDelimiter.induct)
  case (1 matches delimiter)
  show ?case
  proof (cases "delimiter \<in> set matches")
    case True
    have d': "delimiter @ [backtick] = replicate (Suc k) backtick"
      using "1.prems"(1) by (simp add: replicate_append_same)
    have all: "\<forall>j. 1 \<le> j \<and> j < Suc k \<longrightarrow> replicate j backtick \<in> set matches"
      using "1.prems" True by (auto simp: less_Suc_eq)
    from "1.IH" [OF True d' _ all]
    obtain n where n: "growDelimiter matches (delimiter @ [backtick]) = replicate n backtick"
      "Suc k \<le> n" "replicate n backtick \<notin> set matches"
      "\<forall>j. 1 \<le> j \<and> j < n \<longrightarrow> replicate j backtick \<in> set matches"
      by auto
    have "growDelimiter matches delimiter = growDelimiter matches (delimiter @ [backtick])"
      using True by (subst growDelimiter.simps) simp
    with n show ?thesis by (intro exI [of _ n]) auto
  next
    case False
    then have "growDelimiter matches delimiter = delimiter"
      by (subst growDelimiter.simps) simp
    with False "1.prems" show ?thesis by (intro exI [of _ k]) auto
  qed
qed


lemma code_delimiter_least:
  "\<exists>n. code_delimiter trimmed = replicate n backtick \<and> 1 \<le> n
     \<and> replicate n backtick \<notin> set (backtickRuns trimmed)
     \<and> (\<forall>j. 1 \<le> j \<and> j < n \<longrightarrow> replicate j backtick \<in> set (backtickRuns trimmed))"
  unfolding code_delimiter_def
  by (rule growDelimiter_least) simp_all

text \<open>
  C2 (amended). The delimiter on each side of the newline-collapsed content of an inline code
  element is a run of \<open>n\<close> backticks, where \<open>n\<close> is the least length from 1 on that no maximal
  run of backticks of the content has: every length below \<open>n\<close> is the length of some run and
  \<open>n\<close> is the length of none. It is at most 1 + the longest run, and reaches it only when runs
  of every shorter length occur.
\<close>

theorem code_replacement_delimiter:
  "\<exists>n. code_replacement content =
         replicate n backtick
         @ (if needsExtraSpace (collapseLineBreaks content) then [sp] else [])
         @ collapseLineBreaks content
         @ (if needsExtraSpace (collapseLineBreaks content) then [sp] else [])
         @ replicate n backtick
     \<and> 1 \<le> n
     \<and> replicate n backtick \<notin> set (backtickRuns (collapseLineBreaks content))
     \<and> (\<forall>j. 1 \<le> j \<and> j < n \<longrightarrow>
            replicate j backtick \<in> set (backtickRuns (collapseLineBreaks content)))
     \<and> n \<le> 1 + longestBacktickRun (collapseLineBreaks content)"
proof -
  let ?t = "collapseLineBreaks content"
  obtain n where n: "code_delimiter ?t = replicate n backtick" "1 \<le> n"
      "replicate n backtick \<notin> set (backtickRuns ?t)"
      "\<forall>j. 1 \<le> j \<and> j < n \<longrightarrow> replicate j backtick \<in> set (backtickRuns ?t)"
    using code_delimiter_least [of ?t] by blast
  have bound: "n \<le> 1 + longestBacktickRun ?t"
  proof (cases "n = 1")
    case True
    then show ?thesis by simp
  next
    case False
    with n(2) have "1 \<le> n - 1 \<and> n - 1 < n" by simp
    with n(4) have "replicate (n - 1) backtick \<in> set (backtickRuns ?t)" by blast
    then have "length (replicate (n - 1) backtick) \<le> maxLength (backtickRuns ?t)"
      by (rule maxLength_ge)
    then show ?thesis by (simp add: longestBacktickRun_def)
  qed
  have "code_replacement content =
         replicate n backtick
         @ (if needsExtraSpace ?t then [sp] else [])
         @ ?t
         @ (if needsExtraSpace ?t then [sp] else [])
         @ replicate n backtick"
    by (simp add: code_replacement_def Let_def n(1))
  with n(2,3,4) bound show ?thesis by blast
qed

lemma code_example_runs:
  "backtickRuns [CHR ''a'', backtick, CHR ''b'', backtick, backtick, backtick]
     = [[backtick], [backtick, backtick, backtick]]"
  by (simp add: backtick_def)

lemma code_example_value:
  "code_replacement [CHR ''a'', backtick, CHR ''b'', backtick, backtick, backtick]
     = [backtick, backtick, sp, CHR ''a'', backtick, CHR ''b'', backtick, backtick, backtick, sp,
        backtick, backtick]"
  by (simp add: code_replacement_def code_delimiter_def growDelimiter.simps needsExtraSpace_def
      paddedWithSpaces_def backtick_def sp_def cr_def nl_def)

lemma code_example_collapse:
  "collapseLineBreaks [CHR ''a'', backtick, CHR ''b'', backtick, backtick, backtick]
     = [CHR ''a'', backtick, CHR ''b'', backtick, backtick, backtick]"
  by (simp add: backtick_def cr_def nl_def)

theorem code_replacement_delimiter_witness:
  "code_replacement [CHR ''a'', backtick, CHR ''b'', backtick, backtick, backtick]
     = replicate 2 backtick
       @ (if needsExtraSpace [CHR ''a'', backtick, CHR ''b'', backtick, backtick, backtick]
          then [sp] else [])
       @ [CHR ''a'', backtick, CHR ''b'', backtick, backtick, backtick]
       @ (if needsExtraSpace [CHR ''a'', backtick, CHR ''b'', backtick, backtick, backtick]
          then [sp] else [])
       @ replicate 2 backtick
   \<and> replicate 1 backtick
       \<in> set (backtickRuns [CHR ''a'', backtick, CHR ''b'', backtick, backtick, backtick])
   \<and> replicate 2 backtick
       \<notin> set (backtickRuns [CHR ''a'', backtick, CHR ''b'', backtick, backtick, backtick])"
proof -
  let ?c = "[CHR ''a'', backtick, CHR ''b'', backtick, backtick, backtick]"
  obtain n where n1: "code_replacement ?c =
         replicate n backtick
         @ (if needsExtraSpace (collapseLineBreaks ?c) then [sp] else [])
         @ collapseLineBreaks ?c
         @ (if needsExtraSpace (collapseLineBreaks ?c) then [sp] else [])
         @ replicate n backtick"
    and n2: "1 \<le> n"
    and n3: "replicate n backtick \<notin> set (backtickRuns (collapseLineBreaks ?c))"
    and n4: "\<forall>j. 1 \<le> j \<and> j < n \<longrightarrow>
               replicate j backtick \<in> set (backtickRuns (collapseLineBreaks ?c))"
    using code_replacement_delimiter [of ?c] by blast
  have r1: "replicate 1 backtick \<in> set (backtickRuns ?c)"
    by (simp only: code_example_runs) simp
  have r2: "replicate 2 backtick \<notin> set (backtickRuns ?c)"
    by (simp only: code_example_runs) (simp add: numeral_2_eq_2)
  have "n \<noteq> 1"
  proof
    assume e: "n = 1"
    from n3 have "replicate 1 backtick \<notin> set (backtickRuns ?c)"
      unfolding e code_example_collapse .
    with r1 show False by blast
  qed
  moreover have "\<not> 2 < n"
  proof
    assume l: "2 < n"
    have o: "(1::nat) \<le> 2" by simp
    from n4 o l have "replicate 2 backtick \<in> set (backtickRuns (collapseLineBreaks ?c))"
      by blast
    then have "replicate 2 backtick \<in> set (backtickRuns ?c)"
      unfolding code_example_collapse .
    with r2 show False by blast
  qed
  ultimately have "n = 2" using n2 by simp
  with n1 have c1: "code_replacement ?c =
       replicate 2 backtick
       @ (if needsExtraSpace ?c then [sp] else [])
       @ ?c
       @ (if needsExtraSpace ?c then [sp] else [])
       @ replicate 2 backtick"
    by (simp only: code_example_collapse)
  from c1 r1 r2 show ?thesis by (intro conjI)
qed

text \<open>The claim as stated fails: a content with one run of three backticks is delimited by a
  single backtick, not by four.\<close>

theorem code_delimiter_counterexample:
  "code_delimiter (collapseLineBreaks [CHR ''a'', backtick, backtick, backtick, CHR ''b''])
     = [backtick]
   \<and> code_replacement [CHR ''a'', backtick, backtick, backtick, CHR ''b'']
     = [backtick, CHR ''a'', backtick, backtick, backtick, CHR ''b'', backtick]
   \<and> length (code_delimiter (collapseLineBreaks [CHR ''a'', backtick, backtick, backtick, CHR ''b'']))
     \<noteq> 1 + longestBacktickRun (collapseLineBreaks [CHR ''a'', backtick, backtick, backtick, CHR ''b''])"
  by (simp add: code_replacement_def code_delimiter_def growDelimiter.simps needsExtraSpace_def
      paddedWithSpaces_def longestBacktickRun_def maxLength_def backtick_def sp_def cr_def nl_def)

section \<open>default-rules: fenced code blocks\<close>

definition fencedCodeBlock_filter :: RuleFilterFunction where
  "fencedCodeBlock_filter e opts = (codeBlockStyle opts = Fenced \<and> nodeName (node e) = ''PRE'')"

text \<open>\<^verbatim>\<open>className.match(/(?:lang|language)-(\S+)/)\<close>: at the first position where
  \<^verbatim>\<open>lang-\<close> or \<^verbatim>\<open>language-\<close> is followed by a character that is not white space, the
  longest run of such characters; the empty string when there is no such position.\<close>

definition matchLanguageAt :: "string \<Rightarrow> string option" where
  "matchLanguageAt s =
     (if prefix ''lang-'' s \<and> takeWhile (\<lambda>c. \<not> isWhitespace c) (drop 5 s) \<noteq> []
        then Some (takeWhile (\<lambda>c. \<not> isWhitespace c) (drop 5 s))
      else if prefix ''language-'' s \<and> takeWhile (\<lambda>c. \<not> isWhitespace c) (drop 9 s) \<noteq> []
        then Some (takeWhile (\<lambda>c. \<not> isWhitespace c) (drop 9 s))
      else None)"

fun languageOf :: "string \<Rightarrow> string" where
  "languageOf [] = []"
| "languageOf (c # cs) =
     (case matchLanguageAt (c # cs) of Some l \<Rightarrow> l | None \<Rightarrow> languageOf cs)"

text \<open>\<^verbatim>\<open>new RegExp('^' + fenceChar + '{3,}', 'gm')\<close>. The fence character is spliced into the
  pattern text, so what the pattern matches at the start of a line depends on what the
  character means in a pattern: an ordinary character gives a run of three or more of it;
  a dot gives a run of three or more characters other than line terminators; a backslash
  escapes the brace, and the pattern is the literal text \<^verbatim>\<open>{3,}\<close>; with one of
  \<^verbatim>\<open>^ $ * + ? ( ) [ |\<close> the pattern is malformed and the constructor throws.\<close>

datatype FencePattern = RunOf "char \<Rightarrow> bool" | Exactly string

definition fenceInCodeRegex :: "char \<Rightarrow> error + FencePattern" where
  "fenceInCodeRegex fenceChar =
     (if fenceChar = CHR ''.'' then Inr (RunOf (\<lambda>x. \<not> isLineTerminator x))
      else if fenceChar = backslash then Inr (Exactly ''{3,}'')
      else if fenceChar \<in> set ''^$*+?()[|''
        then Inl (SyntaxError (''^'' @ [fenceChar] @ ''{3,}''))
      else Inr (RunOf (\<lambda>x. x = fenceChar)))"

text \<open>The length of the match of the pattern at the head of a text, 0 when it does not match
  there.\<close>

definition matchLength :: "FencePattern \<Rightarrow> string \<Rightarrow> nat" where
  "matchLength pat s =
     (case pat of
        RunOf P \<Rightarrow> (let k = length (takeWhile P s) in if 3 \<le> k then k else 0)
      | Exactly t \<Rightarrow> (if prefix t s then length t else 0))"

lemma matchLength_le: "matchLength pat s \<le> length s"
  by (cases pat) (auto simp: matchLength_def Let_def length_takeWhile_le prefix_length_le)

text \<open>The lengths of the successive matches \<^verbatim>\<open>fenceInCodeRegex.exec(code)\<close> returns: the
  search goes on after the end of the previous match, and a match starts at the start of the
  text or after a line terminator only. The flag says whether the head of the text is at
  the start of a line.\<close>

function execMatches :: "FencePattern \<Rightarrow> bool \<Rightarrow> string \<Rightarrow> nat list" where
  "execMatches pat atLineStart [] = []"
| "execMatches pat atLineStart (x # xs) =
     (let k = (if atLineStart then matchLength pat (x # xs) else 0)
      in if 0 < k
         then k # execMatches pat (isLineTerminator ((x # xs) ! (k - 1))) (drop k (x # xs))
         else execMatches pat (isLineTerminator x) xs)"
  by pat_completeness auto
termination
  by (relation "measure (\<lambda>(pat, b, s). length s)") auto

text \<open>The loop over the matches: \<^verbatim>\<open>if (match[0].length >= fenceSize) fenceSize = match[0].length + 1\<close>.\<close>

definition growFence :: "nat \<Rightarrow> nat list \<Rightarrow> nat" where
  "growFence fenceSize ks = foldl (\<lambda>acc k. if acc \<le> k then k + 1 else acc) fenceSize ks"

text \<open>\<^verbatim>\<open>code.replace(/\n$/, '')\<close>: one newline at the very end is removed.\<close>

definition dropFinalNewline :: "string \<Rightarrow> string" where
  "dropFinalNewline s = (if s \<noteq> [] \<and> last s = nl then butlast s else s)"

text \<open>\<^verbatim>\<open>options.fence?.charAt(0) || '`'\<close>.\<close>

definition fenceCharOf :: "TurnishOptions \<Rightarrow> char" where
  "fenceCharOf opts = (case fence opts of [] \<Rightarrow> backtick | c # _ \<Rightarrow> c)"

definition codeElemOf :: "node \<Rightarrow> node" where
  "codeElemOf preNode =
     (case firstChild preNode of
        None \<Rightarrow> preNode
      | Some c \<Rightarrow> if nodeName c = ''CODE'' then c else preNode)"

definition fencedCodeBlock_replacement :: RuleReplacementFunction where
  "fencedCodeBlock_replacement content e opts =
     (let codeElem = codeElemOf (node e);
          className = orEmpty (getAttribute codeElem ''class'');
          language = languageOf className;
          code = orEmpty (textContent codeElem);
          fenceChar = fenceCharOf opts
      in case fenceInCodeRegex fenceChar of
           Inl err \<Rightarrow> Inl err
         | Inr pat \<Rightarrow>
             let fenceSize = growFence 3 (execMatches pat True code);
                 fence = repeat [fenceChar] fenceSize
             in Inr ([nl, nl] @ fence @ language @ [nl] @
                     dropFinalNewline code @
                     [nl] @ fence @ [nl, nl]))"

definition defaultRules_fencedCodeBlock :: Rule where
  "defaultRules_fencedCodeBlock =
     Rule (FilterFunction fencedCodeBlock_filter) fencedCodeBlock_replacement None"

























section \<open>The escaping of Markdown syntax\<close>

text \<open>The escapes are pairs of a regular expression and a replacement, applied one after
  the other with \<^verbatim>\<open>String.prototype.replace\<close>. Each is modelled by the function on strings
  that the replacement computes. All the expressions have the \<^verbatim>\<open>g\<close> flag and none has the
  \<^verbatim>\<open>m\<close> flag, so \<^verbatim>\<open>^\<close> matches at the start of the string only.\<close>

text \<open>Every occurrence of one character is preceded by a backslash:
  \<^verbatim>\<open>/\\/g\<close>, \<^verbatim>\<open>/\*/g\<close>, \<^verbatim>\<open>/_/g\<close>, \<^verbatim>\<open>/`/g\<close>, \<^verbatim>\<open>/\[/g\<close> and \<^verbatim>\<open>/\]/g\<close>.\<close>

definition escapeEvery :: "char \<Rightarrow> string \<Rightarrow> string" where
  "escapeEvery c s = concat (map (\<lambda>x. if x = c then [backslash, x] else [x]) s)"

text \<open>\<^verbatim>\<open>[/^-/g, '\\-']\<close>\<close>

definition escapeLeadingDash :: "string \<Rightarrow> string" where
  "escapeLeadingDash s = (if prefix ''-'' s then backslash # s else s)"

text \<open>\<^verbatim>\<open>[/^\+ /g, '\\+ ']\<close>\<close>

definition escapeLeadingPlus :: "string \<Rightarrow> string" where
  "escapeLeadingPlus s = (if prefix ''+ '' s then backslash # s else s)"

text \<open>\<^verbatim>\<open>[/^(=+)/g, '\\$1']\<close>\<close>

definition escapeLeadingEquals :: "string \<Rightarrow> string" where
  "escapeLeadingEquals s = (if prefix ''='' s then backslash # s else s)"

text \<open>\<^verbatim>\<open>[/^(#{1,6}) /g, '\\$1 ']\<close>: between one and six hashes and then a space.\<close>

definition escapeLeadingHashes :: "string \<Rightarrow> string" where
  "escapeLeadingHashes s =
     (let k = length (takeWhile (\<lambda>x. x = CHR ''#'') s)
      in if 1 \<le> k \<and> k \<le> 6 \<and> prefix '' '' (drop k s) then backslash # s else s)"

text \<open>\<^verbatim>\<open>[/^~~~/g, '\\~~~']\<close>\<close>

definition escapeLeadingTildes :: "string \<Rightarrow> string" where
  "escapeLeadingTildes s = (if prefix ''~~~'' s then backslash # s else s)"

text \<open>\<^verbatim>\<open>/<([^>]*)>/g\<close>: a span from a \<^verbatim>\<open><\<close> to the next \<^verbatim>\<open>>\<close>, whatever lies between them;
  both angle brackets get a backslash, what lies between them is kept, and the search goes
  on after the \<^verbatim>\<open>>\<close>.\<close>

function escapeAngleSpans :: "string \<Rightarrow> string" where
  "escapeAngleSpans [] = []"
| "escapeAngleSpans (c # cs) =
     (if c = CHR ''<'' \<and> CHR ''>'' \<in> set cs
      then [backslash, CHR ''<''] @ takeWhile (\<lambda>x. x \<noteq> CHR ''>'') cs @ [backslash, CHR ''>'']
           @ escapeAngleSpans (tl (dropWhile (\<lambda>x. x \<noteq> CHR ''>'') cs))
      else c # escapeAngleSpans cs)"
  by pat_completeness auto
termination
proof (relation "measure length")
  show "wf (measure length)" by simp
next
  fix c :: char and cs :: string
  have "length (dropWhile (\<lambda>x. x \<noteq> CHR ''>'') cs) \<le> length cs"
    by (rule length_dropWhile_le)
  then have "length (tl (dropWhile (\<lambda>x. x \<noteq> CHR ''>'') cs)) \<le> length cs"
    by simp
  then show "(tl (dropWhile (\<lambda>x. x \<noteq> CHR ''>'') cs), c # cs) \<in> measure length"
    by simp
next
  fix c :: char and cs :: string
  show "(cs, c # cs) \<in> measure length" by simp
qed

text \<open>\<^verbatim>\<open>[/^>/g, '\\>']\<close>\<close>

definition escapeLeadingGreater :: "string \<Rightarrow> string" where
  "escapeLeadingGreater s = (if prefix ''>'' s then backslash # s else s)"

text \<open>\<^verbatim>\<open>[/^(\d+)\. /g, '$1\\. ']\<close>: digits, a dot and a space; the dot is escaped.\<close>

definition escapeLeadingOrdinal :: "string \<Rightarrow> string" where
  "escapeLeadingOrdinal s =
     (let digits = takeWhile isDigit s; rest = dropWhile isDigit s
      in if digits \<noteq> [] \<and> prefix ''. '' rest
         then digits @ [backslash] @ ''. '' @ drop 2 rest else s)"

definition escapes :: "(string \<Rightarrow> string) list" where
  "escapes = [
     escapeEvery backslash,
     escapeEvery (CHR ''*''),
     escapeEvery (CHR ''_''),
     escapeLeadingDash,
     escapeLeadingPlus,
     escapeLeadingEquals,
     escapeLeadingHashes,
     escapeEvery backtick,
     escapeLeadingTildes,
     escapeEvery (CHR ''[''),
     escapeEvery (CHR '']''),
     escapeAngleSpans,
     escapeLeadingGreater,
     escapeLeadingOrdinal]"

text \<open>\<^verbatim>\<open>escapes.reduce((accumulator, escape) => accumulator.replace(escape[0], escape[1]), string)\<close>\<close>

definition escape :: "string \<Rightarrow> string" where
  "escape s = foldl (\<lambda>accumulator esc. esc accumulator) s escapes"


section \<open>Properties of the escaping\<close>















section \<open>utilities: link titles\<close>

text \<open>\<^verbatim>\<open>string.replace(/(\n+\s*)+/g, '\n')\<close>: a newline together with all the white space
  that follows it becomes one newline.\<close>

function sanitizeWhitespace :: "string \<Rightarrow> string" where
  "sanitizeWhitespace [] = []"
| "sanitizeWhitespace (c # cs) =
     (if c = nl then nl # sanitizeWhitespace (dropWhile isWhitespace cs)
      else c # sanitizeWhitespace cs)"
  by pat_completeness auto
termination
  by (relation "measure length") (auto simp: length_dropWhile_le less_Suc_eq_le)

text \<open>\<^verbatim>\<open>.replace(/[\t\r\n]+/g, ' ')\<close>: a run of tabs, carriage returns and newlines becomes
  one space.\<close>

definition isTabOrBreak :: "char \<Rightarrow> bool" where
  "isTabOrBreak c = (c = tab \<or> c = cr \<or> c = nl)"

function collapseBreaks :: "string \<Rightarrow> string" where
  "collapseBreaks [] = []"
| "collapseBreaks (c # cs) =
     (if isTabOrBreak c then sp # collapseBreaks (dropWhile isTabOrBreak cs)
      else c # collapseBreaks cs)"
  by pat_completeness auto
termination
  by (relation "measure length") (auto simp: length_dropWhile_le less_Suc_eq_le)

definition sanitizedLinkTitle :: "string \<Rightarrow> string" where
  "sanitizedLinkTitle content = collapseBreaks (sanitizeWhitespace content)"

section \<open>default-rules: reference links\<close>

text \<open>The state of the reference-link rule: the pending reference definitions and the map
  from \<^verbatim>\<open>href + title\<close> to the id given to it.\<close>

record ReferenceLinkState =
  references :: "string list"
  urlReferenceIdMap :: "string \<rightharpoonup> nat"

definition emptyReferences :: ReferenceLinkState where
  "emptyReferences = \<lparr> references = [], urlReferenceIdMap = Map.empty \<rparr>"

text \<open>The decimal digits of a number, as string concatenation writes an id.\<close>

function numberToString :: "nat \<Rightarrow> string" where
  "numberToString n =
     (if n < 10 then [''0123456789'' ! n]
      else numberToString (n div 10) @ [''0123456789'' ! (n mod 10)])"
  by pat_completeness auto
termination
  by (relation "measure id") auto

declare numberToString.simps [simp del]

text \<open>A null \<^verbatim>\<open>href\<close> concatenates as the text \<^verbatim>\<open>null\<close>.\<close>

definition hrefText :: "string option \<Rightarrow> string" where
  "hrefText href = (case href of None \<Rightarrow> ''null'' | Some h \<Rightarrow> h)"

text \<open>The else branch of the full style: the next id is the number of references so far plus
  one; the key is mapped to it and the reference is pushed.\<close>

definition newReference ::
  "string \<Rightarrow> string \<Rightarrow> string \<Rightarrow> string \<Rightarrow> ReferenceLinkState \<Rightarrow> string \<times> string \<times> ReferenceLinkState" where
  "newReference content href title referenceKey self =
     (let id = length (references self) + 1;
          reference = ''['' @ numberToString id @ '']: '' @ href @ title
      in (''['' @ content @ '']['' @ numberToString id @ '']'',
          reference,
          self\<lparr> urlReferenceIdMap := (urlReferenceIdMap self)(referenceKey \<mapsto> id),
                references := references self @ [reference] \<rparr>))"

definition dquote :: char where "dquote = CHR 0x22"

text \<open>The replacement reads and writes the state of the rule (\<^verbatim>\<open>self\<close>). The switch on the
  reference style gives the replacement, the reference and, for the full style, the state
  with a new id; the block after it stores the reference for the other two styles.\<close>

definition referenceLinkRule_replacement ::
  "string \<Rightarrow> ExtendedNode \<Rightarrow> TurnishOptions \<Rightarrow> ReferenceLinkState \<Rightarrow> string \<times> ReferenceLinkState" where
  "referenceLinkRule_replacement content e opts self =
     (let href = hrefText (getAttribute (node e) ''href'');
          titleAttr = orEmpty (getAttribute (node e) ''title'');
          title = (if titleAttr \<noteq> []
                   then [sp, dquote] @ sanitizedLinkTitle titleAttr @ [dquote] else []);
          referenceKey = href @ title;
          (replacement, reference, self1) =
            (case linkReferenceStyle opts of
               Collapsed \<Rightarrow>
                 (''['' @ content @ ''][]'', ''['' @ content @ '']: '' @ referenceKey, self)
             | Shortcut \<Rightarrow>
                 (''['' @ content @ '']'', ''['' @ content @ '']: '' @ referenceKey, self)
             | Full \<Rightarrow>
                 (let existingKey = urlReferenceIdMap self referenceKey
                  in case existingKey of
                       Some k \<Rightarrow>
                         if linkReferenceDeduplication opts = DedupFull \<and> k \<noteq> 0
                         then (''['' @ content @ '']['' @ numberToString k @ '']'',
                               ''['' @ numberToString k @ '']: '' @ href @ title, self)
                         else newReference content href title referenceKey self
                     | None \<Rightarrow> newReference content href title referenceKey self))
      in if linkReferenceStyle opts \<noteq> Full then
           (if linkReferenceDeduplication opts = DedupFull then
              (if urlReferenceIdMap self1 referenceKey = None
               then (replacement,
                     self1\<lparr> urlReferenceIdMap := (urlReferenceIdMap self1)(referenceKey \<mapsto> 1),
                            references := references self1 @ [reference] \<rparr>)
               else (replacement, self1))
            else (replacement, self1\<lparr> references := references self1 @ [reference] \<rparr>))
         else (replacement, self1))"

text \<open>\<^verbatim>\<open>references.join('\n')\<close>\<close>

fun joinLines :: "string list \<Rightarrow> string" where
  "joinLines [] = []"
| "joinLines [r] = r"
| "joinLines (r # rs) = r @ [nl] @ joinLines rs"

definition referenceLinkRule_append ::
  "TurnishOptions \<Rightarrow> ReferenceLinkState \<Rightarrow> string \<times> ReferenceLinkState" where
  "referenceLinkRule_append opts self =
     (if references self \<noteq> []
      then ([nl, nl] @ joinLines (references self) @ [nl, nl], emptyReferences)
      else ([], self))"


section \<open>Properties of the reference-link rule\<close>





definition referencedOptions :: TurnishOptions where
  "referencedOptions = defaultOptions\<lparr> linkStyle := Referenced \<rparr>"

section \<open>rules: construction of the table\<close>

text \<open>\<^verbatim>\<open>for (const key in options.rules)\<close> visits the keys that are array indices (the decimal
  numerals, without a leading zero, of the integers below 2^32 - 1) in ascending order first,
  and then the other keys in the order in which they were created. The table of the options
  is given as the list of its keys and rules in the order of creation.\<close>

definition decimalValue :: "string \<Rightarrow> nat" where
  "decimalValue s = foldl (\<lambda>n c. 10 * n + (of_char c - 48)) 0 s"

definition isArrayIndex :: "string \<Rightarrow> bool" where
  "isArrayIndex key =
     (key \<noteq> [] \<and> list_all isDigit key \<and> (key = ''0'' \<or> hd key \<noteq> CHR ''0'') \<and>
      decimalValue key < 2 ^ 32 - 1)"

definition forIn :: "(string \<times> 'a) list \<Rightarrow> (string \<times> 'a) list" where
  "forIn table =
     sort_key (\<lambda>entry. decimalValue (fst entry)) (filter (\<lambda>entry. isArrayIndex (fst entry)) table)
     @ filter (\<lambda>entry. \<not> isArrayIndex (fst entry)) table"

text \<open>\<^verbatim>\<open>new Rules(options)\<close>: the blank and the default rule wrap the replacement functions
  of the options, and the array holds the rules of the options' table in the order of
  \<^verbatim>\<open>for ... in\<close>. For the built-in reference-link rule the constructor calls
  \<^verbatim>\<open>createReferenceLinkRule()\<close>, to give the instance a rule with a state of its own; here the
  state of the rule is an argument of the engine, so the rule itself stays as it is.\<close>

definition newRules ::
  "TurnishOptions \<Rightarrow> (string \<times> Rule) list \<Rightarrow> RuleReplacementFunction \<Rightarrow> RuleReplacementFunction
     \<Rightarrow> RuleReplacementFunction \<Rightarrow> RuleReplacementFunction \<Rightarrow> Rules" where
  "newRules opts rules blankR keepR markdownR defaultR =
     \<lparr> options = opts, keepRules = [], removeRules = [],
       blankRule = Rule FilterOther blankR None,
       keepReplacement = keepR,
       markdownIncludingHtmlReplacement = markdownR,
       defaultRule = Rule FilterOther defaultR None,
       array = map snd (forIn rules) \<rparr>"

section \<open>The conversion engine\<close>

text \<open>What \<^verbatim>\<open>render\<close> may be given: null, undefined, a string, an object whose \<^verbatim>\<open>nodeType\<close> is
  that of a node, any other value whose \<^verbatim>\<open>nodeType\<close> can be read (a number, a boolean, a
  symbol, an object without the property), and an object whose \<^verbatim>\<open>nodeType\<close> cannot be read,
  because reading it throws. A value that is not a string carries what string concatenation
  makes of it: a text, or the error that the conversion throws (a symbol, an object without
  a prototype and an object whose \<^verbatim>\<open>toString\<close> throws have no text).\<close>

datatype InputType =
    JSNull
  | JSUndefined
  | JSString string
  | JSNode node "error + string"
  | JSOther "error + string"
  | JSUnreadable error

definition canConvert :: "InputType \<Rightarrow> error + bool" where
  "canConvert input =
     (case input of
        JSNull \<Rightarrow> Inr False
      | JSUndefined \<Rightarrow> Inr False
      | JSString _ \<Rightarrow> Inr True
      | JSNode n _ \<Rightarrow> Inr (nodeType n = 1 \<or> nodeType n = 9 \<or> nodeType n = 11)
      | JSOther _ \<Rightarrow> Inr False
      | JSUnreadable err \<Rightarrow> Inl err)"

text \<open>\<^verbatim>\<open>input + '...'\<close>: the text of a value in a string concatenation, or the error that
  its conversion to a string throws.\<close>

definition toText :: "InputType \<Rightarrow> error + string" where
  "toText input =
     (case input of
        JSNull \<Rightarrow> Inr ''null''
      | JSUndefined \<Rightarrow> Inr ''undefined''
      | JSString s \<Rightarrow> Inr s
      | JSNode _ s \<Rightarrow> s
      | JSOther s \<Rightarrow> s
      | JSUnreadable err \<Rightarrow> Inl err)"

text \<open>The replacement a rule gives: a text or the error it throws, and the state of the
  reference-link rule after the call.\<close>

fun applyReplacement ::
  "Rule \<Rightarrow> string \<Rightarrow> ExtendedNode \<Rightarrow> TurnishOptions \<Rightarrow> ReferenceLinkState
     \<Rightarrow> (error + string) \<times> ReferenceLinkState" where
  "applyReplacement (Rule _ replacement _) content e opts self =
     (replacement content e opts, self)"
| "applyReplacement referenceLinkRule content e opts self =
     (case referenceLinkRule_replacement content e opts self of
        (r, self') \<Rightarrow> (Inr r, self'))"

text \<open>The text of a text node: after a checkbox input the leading white space is removed;
  text in code is kept as it is and other text is escaped.\<close>

definition isCheckbox :: "node option \<Rightarrow> bool" where
  "isCheckbox prev =
     (case prev of
        None \<Rightarrow> False
      | Some p \<Rightarrow> nodeType p = 1 \<and> nodeName p = ''INPUT'' \<and> getAttribute p ''type'' = Some ''checkbox'')"

definition textReplacement :: "ExtendedNode \<Rightarrow> string" where
  "textReplacement extended =
     (let value0 = orEmpty (nodeValue (node extended));
          value = (if isCheckbox (previousSibling extended) then dropWhile isWhitespace value0
                   else value0)
      in if isCode extended then value else escape value)"

fun nodeSize :: "node \<Rightarrow> nat" where
  "nodeSize (Element _ _ cs) = Suc (sum_list (map nodeSize cs))"
| "nodeSize (Document cs) = Suc (sum_list (map nodeSize cs))"
| "nodeSize (DocumentFragment cs) = Suc (sum_list (map nodeSize cs))"
| "nodeSize _ = 1"

lemma nodeSize_positive: "0 < nodeSize n"
  by (cases n) simp_all

lemma nodeSize_first: "2 * nodeSize n - Suc 0 < 2 * nodeSize n + k"
  using nodeSize_positive [of n] by simp

lemma nodeSize_childNodes: "2 * sum_list (map nodeSize (childNodes n)) < 2 * nodeSize n - Suc 0"
  by (cases n) simp_all

text \<open>\<^verbatim>\<open>process(parentNode)\<close> folds over the child nodes with the output so far;
  \<^verbatim>\<open>replacementForNode(node)\<close> resolves the rule, converts the children and applies the
  rule. The arguments of \<open>process\<close> are the table, the \<^verbatim>\<open>isCode\<close> of the parent, the ancestors
  of the children (the parent first), the previous sibling, the children still to convert,
  the output so far and the state of the reference-link rule. The result is the output, or
  the error thrown on the way, together with the state of the reference-link rule at that
  moment: an error ends the conversion and leaves the state as the calls before it made it.\<close>

function process ::
    "Rules \<Rightarrow> bool \<Rightarrow> node list \<Rightarrow> node option \<Rightarrow> node list \<Rightarrow> string \<Rightarrow> ReferenceLinkState
       \<Rightarrow> (error + string) \<times> ReferenceLinkState"
  and replacementForNode ::
    "Rules \<Rightarrow> ExtendedNode \<Rightarrow> ReferenceLinkState \<Rightarrow> (error + string) \<times> ReferenceLinkState" where
  "process rs parentIsCode ancs prev [] output' self = (Inr output', self)"
| "process rs parentIsCode ancs prev (n # ns) output' self =
     (let extended = extendNode n parentIsCode ancs prev
                       (case ns of [] \<Rightarrow> None | m # _ \<Rightarrow> Some m) (options rs)
      in case (if nodeType n = 3 then (Inr (textReplacement extended), self)
               else if nodeType n = 1 then replacementForNode rs extended self
               else (Inr [], self)) of
           (Inl err, self') \<Rightarrow> (Inl err, self')
         | (Inr replacement, self') \<Rightarrow>
             process rs parentIsCode ancs (Some n) ns (join output' replacement) self')"
| "replacementForNode rs e self =
     (case forNode rs e of
        Inl err \<Rightarrow> (Inl err, self)
      | Inr rule \<Rightarrow>
         (case process rs (isCode e) (node e # ancestors e) None (childNodes (node e)) [] self of
            (Inl err, self') \<Rightarrow> (Inl err, self')
          | (Inr content0, self') \<Rightarrow>
             (let whitespace = flankingWhitespace e;
                  content = (if leading whitespace \<noteq> [] \<or> trailing whitespace \<noteq> []
                             then trim content0 else content0)
              in case applyReplacement rule content e (options rs) self' of
                   (Inl err, self'') \<Rightarrow> (Inl err, self'')
                 | (Inr r, self'') \<Rightarrow>
                     (Inr (leading whitespace @ r @ trailing whitespace), self''))))"
  by pat_completeness auto
termination
  by (relation "measure (\<lambda>x. case x of
        Inl (rs, pc, ancs, prev, ns, out, self) \<Rightarrow> 2 * sum_list (map nodeSize ns)
      | Inr (rs, e, self) \<Rightarrow> 2 * nodeSize (node e) - 1)")
     (auto simp: extendNode_def Let_def nodeSize_childNodes nodeSize_positive nodeSize_first)

declare process.simps [simp del] replacementForNode.simps [simp del]

text \<open>The loop of \<^verbatim>\<open>postProcess\<close> over the rules of the array: the text a rule's
  \<^verbatim>\<open>append\<close> returns is joined to the output.\<close>

fun appendRules ::
  "Rule list \<Rightarrow> TurnishOptions \<Rightarrow> string \<Rightarrow> ReferenceLinkState \<Rightarrow> string \<times> ReferenceLinkState" where
  "appendRules [] opts output' self = (output', self)"
| "appendRules (Rule _ _ None # rules) opts output' self = appendRules rules opts output' self"
| "appendRules (Rule _ _ (Some append') # rules) opts output' self =
     appendRules rules opts (join output' (append' opts)) self"
| "appendRules (referenceLinkRule # rules) opts output' self =
     (let (r, self') = referenceLinkRule_append opts self
      in appendRules rules opts (join output' r) self')"

text \<open>\<^verbatim>\<open>output.replace(/^[\t\r\n]+/, '').replace(/[\t\r\n\s]+$/, '')\<close>: the leading run of
  tabs, carriage returns and newlines and the trailing run of white space are removed.\<close>

definition postProcess ::
  "Rules \<Rightarrow> string \<Rightarrow> ReferenceLinkState \<Rightarrow> string \<times> ReferenceLinkState" where
  "postProcess rs output' self =
     (let (output1, self') = appendRules (array rs) (options rs) output' self
      in (trimEnd (dropWhile isTabOrBreak output1), self'))"

text \<open>The engine holds the rule table, which holds the options. \<^verbatim>\<open>RootNode\<close>, which parses a
  string and wraps the input in a root node, is an argument of \<open>render\<close>. The result of
  \<open>render\<close> is the string it returns or the error it throws, and the state in which it leaves
  the reference-link rule.\<close>

record Turnish =
  rules :: Rules

definition addRule :: "string \<Rightarrow> Rule \<Rightarrow> Turnish \<Rightarrow> Turnish" where
  "addRule key rule t = t\<lparr> rules := add key rule (rules t) \<rparr>"

definition render ::
  "Turnish \<Rightarrow> (InputType \<Rightarrow> TurnishOptions \<Rightarrow> node) \<Rightarrow> InputType \<Rightarrow> ReferenceLinkState
     \<Rightarrow> (error + string) \<times> ReferenceLinkState" where
  "render t RootNode input self =
     (case canConvert input of
        Inl err \<Rightarrow> (Inl err, self)
      | Inr False \<Rightarrow>
         (case toText input of
            Inl err \<Rightarrow> (Inl err, self)
          | Inr text \<Rightarrow>
             (Inl (TypeError
                (text @ '' is not a string, or an element/document/fragment node.'')), self))
      | Inr True \<Rightarrow>
         (if input = JSString [] then (Inr [], self)
          else
            (let root = RootNode input (options (rules t))
             in case process (rules t) False [root] None (childNodes root) [] self of
                  (Inl err, self') \<Rightarrow> (Inl err, self')
                | (Inr output', self') \<Rightarrow>
                    (case postProcess (rules t) output' self' of
                       (out, self'') \<Rightarrow> (Inr out, self'')))))"

definition accumulatorInvariant :: "ReferenceLinkState \<Rightarrow> bool" where
  "accumulatorInvariant self = (references self = [] \<longrightarrow> urlReferenceIdMap self = Map.empty)"

lemma replacement_invariant:
  "accumulatorInvariant self \<Longrightarrow>
   accumulatorInvariant (snd (referenceLinkRule_replacement content e opts self))"
  by (cases "linkReferenceStyle opts")
     (auto simp: referenceLinkRule_replacement_def newReference_def accumulatorInvariant_def Let_def
       split: option.splits)

lemma applyReplacement_invariant:
  "accumulatorInvariant self \<Longrightarrow>
   accumulatorInvariant (snd (applyReplacement rule content e opts self))"
proof (cases rule)
  case (Rule f rep ap)
  assume "accumulatorInvariant self"
  with Rule show ?thesis by simp
next
  case referenceLinkRule
  assume "accumulatorInvariant self"
  then have "accumulatorInvariant (snd (referenceLinkRule_replacement content e opts self))"
    by (rule replacement_invariant)
  with referenceLinkRule show ?thesis by (simp add: case_prod_unfold)
qed

lemma process_Cons:
  "process rs pc ancs prev (n # ns) out self =
     (case (if nodeType n = 3
            then (Inr (textReplacement (extendNode n pc ancs prev
                    (case ns of [] \<Rightarrow> None | m # _ \<Rightarrow> Some m) (options rs))), self)
            else if nodeType n = 1
              then replacementForNode rs (extendNode n pc ancs prev
                    (case ns of [] \<Rightarrow> None | m # _ \<Rightarrow> Some m) (options rs)) self
              else (Inr [], self)) of
        (Inl err, self') \<Rightarrow> (Inl err, self')
      | (Inr replacement, self') \<Rightarrow> process rs pc ancs (Some n) ns (join out replacement) self')"
  by (simp add: process.simps Let_def)

lemma process_invariant:
  shows "accumulatorInvariant self \<Longrightarrow>
           accumulatorInvariant (snd (process rs pc ancs prev ns out self))"
    and "accumulatorInvariant self \<Longrightarrow> accumulatorInvariant (snd (replacementForNode rs e self))"
proof (induction rs pc ancs prev ns out self and rs e self
    rule: process_replacementForNode.induct)
  case (1 rs parentIsCode ancs prev output' self)
  then show ?case by (simp add: process.simps)
next
  case (2 rs parentIsCode ancs prev n ns output' self)
  let ?x = "extendNode n parentIsCode ancs prev
              (case ns of [] \<Rightarrow> None | m # _ \<Rightarrow> Some m) (options rs)"
  let ?step = "if nodeType n = 3 then (Inr (textReplacement ?x), self)
               else if nodeType n = 1 then replacementForNode rs ?x self
               else (Inr [], self)"
  have y: "accumulatorInvariant (snd ?step)"
  proof (cases "nodeType n = 3")
    case True
    with "2.prems" show ?thesis by simp
  next
    case False
    show ?thesis
    proof (cases "nodeType n = 1")
      case True
      from "2.IH"(1) [OF refl False True "2.prems"] False True show ?thesis by simp
    next
      case other: False
      with False "2.prems" show ?thesis by simp
    qed
  qed
  obtain res y where step: "?step = (res, y)" by (cases ?step)
  with y have iy: "accumulatorInvariant y" by simp
  show ?case
  proof (cases res)
    case (Inl err)
    with step iy show ?thesis by (simp add: process_Cons)
  next
    case (Inr r)
    from "2.IH"(2) [OF refl step [symmetric] Inr iy] step Inr
    show ?thesis by (simp add: process_Cons)
  qed
next
  case (3 rs e self)
  show ?case
  proof (cases "forNode rs e")
    case (Inl err)
    with "3.prems" show ?thesis by (simp add: replacementForNode.simps)
  next
    case (Inr rule)
    let ?p = "process rs (isCode e) (node e # ancestors e) None (childNodes (node e)) [] self"
    obtain res y where p: "?p = (res, y)" by (cases ?p)
    from "3.IH" [OF Inr "3.prems"] p have iy: "accumulatorInvariant y" by simp
    show ?thesis
    proof (cases res)
      case err: (Inl err)
      with Inr p iy show ?thesis by (simp add: replacementForNode.simps)
    next
      case c: (Inr content0)
      let ?c = "if leading (flankingWhitespace e) \<noteq> [] \<or> trailing (flankingWhitespace e) \<noteq> []
                then trim content0 else content0"
      obtain res2 z where a: "applyReplacement rule ?c e (options rs) y = (res2, z)"
        by (cases "applyReplacement rule ?c e (options rs) y")
      from applyReplacement_invariant [OF iy, of rule ?c e "options rs"] a
      have "accumulatorInvariant z" by simp
      with Inr p c a show ?thesis
        by (cases res2) (simp_all add: replacementForNode.simps Let_def)
    qed
  qed
qed

text \<open>Only the rules of the array can be the reference-link rule when the blank rule, the
  default rule and the keep and remove rules are not: this is so for every table made by the
  constructor and changed by \<open>add\<close>, \<open>keep\<close> and \<open>remove\<close>.\<close>

definition statelessOutsideArray :: "Rules \<Rightarrow> bool" where
  "statelessOutsideArray rs =
     (blankRule rs \<noteq> referenceLinkRule \<and> defaultRule rs \<noteq> referenceLinkRule \<and>
      list_all (\<lambda>r. r \<noteq> referenceLinkRule) (keepRules rs) \<and>
      list_all (\<lambda>r. r \<noteq> referenceLinkRule) (removeRules rs))"

lemma statelessOutsideArray_newRules:
  "statelessOutsideArray (newRules opts table blankR keepR markdownR defaultR)"
  by (simp add: statelessOutsideArray_def newRules_def)

lemma statelessOutsideArray_add:
  "statelessOutsideArray rs \<Longrightarrow> statelessOutsideArray (add key rule rs)"
  by (simp add: statelessOutsideArray_def add_def)

lemma statelessOutsideArray_keep:
  "statelessOutsideArray rs \<Longrightarrow> statelessOutsideArray (keep f rs)"
  by (simp add: statelessOutsideArray_def keep_def)

lemma statelessOutsideArray_remove:
  "statelessOutsideArray rs \<Longrightarrow> statelessOutsideArray (remove f rs)"
  by (simp add: statelessOutsideArray_def remove_def)

lemma findRule_member: "findRule rl e opts = Inr (Some r) \<Longrightarrow> r \<in> set rl"
  by (induction rl) (auto split: sum.splits bool.splits)

lemma forNode_stateless:
  assumes "forNode rs e = Inr rule" and "statelessOutsideArray rs"
    and "referenceLinkRule \<notin> set (array rs)"
  shows "rule \<noteq> referenceLinkRule"
proof
  assume r: "rule = referenceLinkRule"
  from assms(1) have "rule = blankRule rs \<or> rule = defaultRule rs
      \<or> rule = Rule FilterOther (keepReplacement rs) None
      \<or> rule = Rule FilterOther (markdownIncludingHtmlReplacement rs) None
      \<or> rule \<in> set (array rs) \<or> rule \<in> set (keepRules rs) \<or> rule \<in> set (removeRules rs)"
    by (auto simp: forNode_def split: if_splits sum.splits option.splits dest: findRule_member)
  with r assms(2,3) show False
    by (auto simp: statelessOutsideArray_def list_all_iff)
qed

lemma applyReplacement_stateless:
  "rule \<noteq> referenceLinkRule \<Longrightarrow> snd (applyReplacement rule content e opts self) = self"
  by (cases rule) simp_all

lemma process_unchanged:
  shows "statelessOutsideArray rs \<Longrightarrow> referenceLinkRule \<notin> set (array rs) \<Longrightarrow>
           snd (process rs pc ancs prev ns out self) = self"
    and "statelessOutsideArray rs \<Longrightarrow> referenceLinkRule \<notin> set (array rs) \<Longrightarrow>
           snd (replacementForNode rs e self) = self"
proof (induction rs pc ancs prev ns out self and rs e self
    rule: process_replacementForNode.induct)
  case (1 rs parentIsCode ancs prev output' self)
  then show ?case by (simp add: process.simps)
next
  case (2 rs parentIsCode ancs prev n ns output' self)
  let ?x = "extendNode n parentIsCode ancs prev
              (case ns of [] \<Rightarrow> None | m # _ \<Rightarrow> Some m) (options rs)"
  let ?step = "if nodeType n = 3 then (Inr (textReplacement ?x), self)
               else if nodeType n = 1 then replacementForNode rs ?x self
               else (Inr [], self)"
  have y: "snd ?step = self"
  proof (cases "nodeType n = 3")
    case True
    then show ?thesis by simp
  next
    case False
    show ?thesis
    proof (cases "nodeType n = 1")
      case True
      from "2.IH"(1) [OF refl False True "2.prems"] False True show ?thesis by simp
    next
      case other: False
      with False show ?thesis by simp
    qed
  qed
  obtain res y where step: "?step = (res, y)" by (cases ?step)
  with y have iy: "y = self" by simp
  show ?case
  proof (cases res)
    case (Inl err)
    with step iy show ?thesis by (simp add: process_Cons)
  next
    case (Inr r)
    from "2.IH"(2) [OF refl step [symmetric] Inr "2.prems"] step Inr iy
    show ?thesis by (simp add: process_Cons)
  qed
next
  case (3 rs e self)
  show ?case
  proof (cases "forNode rs e")
    case (Inl err)
    then show ?thesis by (simp add: replacementForNode.simps)
  next
    case (Inr rule)
    let ?p = "process rs (isCode e) (node e # ancestors e) None (childNodes (node e)) [] self"
    obtain res y where p: "?p = (res, y)" by (cases ?p)
    from "3.IH" [OF Inr "3.prems"] p have iy: "y = self" by simp
    from Inr "3.prems" have nr: "rule \<noteq> referenceLinkRule" by (rule forNode_stateless)
    show ?thesis
    proof (cases res)
      case err: (Inl err)
      with Inr p iy show ?thesis by (simp add: replacementForNode.simps)
    next
      case c: (Inr content0)
      let ?c = "if leading (flankingWhitespace e) \<noteq> [] \<or> trailing (flankingWhitespace e) \<noteq> []
                then trim content0 else content0"
      obtain res2 z where a: "applyReplacement rule ?c e (options rs) y = (res2, z)"
        by (cases "applyReplacement rule ?c e (options rs) y")
      from applyReplacement_stateless [OF nr, of ?c e "options rs" y] a iy
      have "z = self" by simp
      with Inr p c a show ?thesis
        by (cases res2) (simp_all add: replacementForNode.simps Let_def)
    qed
  qed
qed

lemma append_flushes:
  "accumulatorInvariant self \<Longrightarrow> snd (referenceLinkRule_append opts self) = emptyReferences"
  by (auto simp: referenceLinkRule_append_def accumulatorInvariant_def emptyReferences_def)

lemma appendRules_empty: "snd (appendRules rl opts out emptyReferences) = emptyReferences"
proof (induction rl opts out emptyReferences rule: appendRules.induct)
  case (4 rl opts output')
  have "referenceLinkRule_append opts emptyReferences = ([], emptyReferences)"
    by (simp add: referenceLinkRule_append_def emptyReferences_def)
  with 4 show ?case by simp
qed simp_all

lemma appendRules_flush:
  "accumulatorInvariant self \<Longrightarrow> referenceLinkRule \<in> set rl \<Longrightarrow>
   snd (appendRules rl opts out self) = emptyReferences"
proof (induction rl opts out self rule: appendRules.induct)
  case (4 rl opts output' self)
  obtain r where r: "referenceLinkRule_append opts self = (r, emptyReferences)"
    using append_flushes [OF "4.prems"(1), of opts]
    by (cases "referenceLinkRule_append opts self") simp
  then show ?case by (simp add: appendRules_empty)
qed simp_all

lemma appendRules_unchanged:
  "referenceLinkRule \<notin> set rl \<Longrightarrow> snd (appendRules rl opts out self) = self"
  by (induction rl opts out self rule: appendRules.induct) simp_all


section \<open>default-rules: indented code blocks\<close>

definition indentedCodeBlock_filter :: RuleFilterFunction where
  "indentedCodeBlock_filter e opts =
     (codeBlockStyle opts = Indented \<and> nodeName (node e) = ''PRE'' \<and>
      (case firstChild (node e) of None \<Rightarrow> False | Some c \<Rightarrow> nodeName c = ''CODE''))"

text \<open>\<^verbatim>\<open>textContent.replace(/\n/g, '\n    ')\<close>: four spaces after every newline.\<close>

definition indentLines :: "string \<Rightarrow> string" where
  "indentLines s = concat (map (\<lambda>c. if c = nl then nl # ''    '' else [c]) s)"

definition indentedCodeBlock_replacement :: RuleReplacementFunction where
  "indentedCodeBlock_replacement content e opts =
     (case firstChild (node e) of
        None \<Rightarrow> Inr []
      | Some c \<Rightarrow> Inr ([nl, nl] @ ''    '' @ indentLines (orEmpty (textContent c)) @ [nl, nl]))"

definition defaultRules_indentedCodeBlock :: Rule where
  "defaultRules_indentedCodeBlock =
     Rule (FilterFunction indentedCodeBlock_filter) indentedCodeBlock_replacement None"

section \<open>The engine and its configuration\<close>

text \<open>\<^verbatim>\<open>new Turnish(options)\<close> makes the rule table from the options; \<^verbatim>\<open>addRule\<close>,
  \<^verbatim>\<open>keep\<close> and \<^verbatim>\<open>remove\<close> change it.\<close>

definition newTurnish ::
  "TurnishOptions \<Rightarrow> (string \<times> Rule) list \<Rightarrow> RuleReplacementFunction \<Rightarrow> RuleReplacementFunction
     \<Rightarrow> RuleReplacementFunction \<Rightarrow> RuleReplacementFunction \<Rightarrow> Turnish" where
  "newTurnish opts table blankR keepR markdownR defaultR =
     \<lparr> rules = newRules opts table blankR keepR markdownR defaultR \<rparr>"

datatype Configure = AddRule string Rule | Keep RuleFilter | Remove RuleFilter

fun configure :: "Turnish \<Rightarrow> Configure \<Rightarrow> Turnish" where
  "configure t (AddRule key rule) = addRule key rule t"
| "configure t (Keep f) = t\<lparr> rules := keep f (rules t) \<rparr>"
| "configure t (Remove f) = t\<lparr> rules := remove f (rules t) \<rparr>"

lemma statelessOutsideArray_configure:
  "statelessOutsideArray (rules t) \<Longrightarrow> statelessOutsideArray (rules (configure t c))"
  by (cases c)
     (simp_all add: addRule_def statelessOutsideArray_add statelessOutsideArray_keep
        statelessOutsideArray_remove)

lemma statelessOutsideArray_configured:
  "statelessOutsideArray (rules t) \<Longrightarrow> statelessOutsideArray (rules (foldl configure t cs))"
  by (induction cs arbitrary: t) (simp_all add: statelessOutsideArray_configure)

section \<open>Properties of the engine\<close>

text \<open>An engine for examples, with the referenced link style, a strikethrough rule and an
  image rule added; the image rule throws for an image without a source. The parser for
  examples knows the documents of the examples.\<close>

definition imageRule :: Rule where
  "imageRule =
     Rule (FilterString ''img'')
       (\<lambda>content e opts.
          case getAttribute (node e) ''src'' of
            None \<Rightarrow> Inl (Thrown ''image without src'')
          | Some src \<Rightarrow> Inr (''![]('' @ src @ '')''))
       None"

definition exampleTurnish :: Turnish where
  "exampleTurnish =
     foldl configure
       (newTurnish referencedOptions
          [(''paragraph'', Rule (FilterString ''p'')
              (\<lambda>content e opts. Inr ([nl, nl] @ content @ [nl, nl])) None),
           (''indentedCodeBlock'', defaultRules_indentedCodeBlock),
           (''fencedCodeBlock'', defaultRules_fencedCodeBlock),
           (''referenceLink'', referenceLinkRule),
           (''emphasis'', defaultRules_emphasis),
           (''strong'', defaultRules_strong),
           (''code'', defaultRules_code)]
          blankReplacement (\<lambda>content e opts. Inr content) (\<lambda>content e opts. Inr content)
          defaultReplacement)
       [AddRule ''strikethrough'' strikethrough, AddRule ''image'' imageRule]"

definition threeLinks :: node where
  "threeLinks = Element ''BODY'' []
     [Element ''A'' [(''href'', ''http://a'')] [Text ''L1''], Text '' '',
      Element ''A'' [(''href'', ''http://b'')] [Text ''L2''], Text '' '',
      Element ''A'' [(''href'', ''http://a'')] [Text ''L3'']]"

definition linkInCodeBlock :: node where
  "linkInCodeBlock = Element ''BODY'' []
     [Element ''PRE'' [] [Element ''A'' [(''href'', ''http://a'')] [Text ''L1'']],
      Element ''A'' [(''href'', ''http://b'')] [Text ''L2''], Text '' '',
      Element ''A'' [(''href'', ''http://a'')] [Text ''L3'']]"

definition linkAndImage :: node where
  "linkAndImage = Element ''BODY'' []
     [Element ''A'' [(''href'', ''http://c'')] [Text ''L0''], Element ''IMG'' [] []]"

definition exampleRootNode :: "InputType \<Rightarrow> TurnishOptions \<Rightarrow> node" where
  "exampleRootNode input opts =
     (if input = JSString ''<a href=http://a>L1</a> <a href=http://b>L2</a> <a href=http://a>L3</a>''
      then threeLinks
      else if input = JSString
          ''<pre><a href=http://a>L1</a></pre><a href=http://b>L2</a> <a href=http://a>L3</a>''
      then linkInCodeBlock
      else if input = JSString ''<a href=http://c>L0</a><img>''
      then linkAndImage
      else Element ''BODY'' [] [])"

definition threeLinksHtml :: InputType where
  "threeLinksHtml =
     JSString ''<a href=http://a>L1</a> <a href=http://b>L2</a> <a href=http://a>L3</a>''"



definition linkAndImageHtml :: InputType where
  "linkAndImageHtml = JSString ''<a href=http://c>L0</a><img>''"







lemma threeLinks_output:
  "fst (render exampleTurnish exampleRootNode threeLinksHtml emptyReferences)
     = Inr (''[L1][1] [L2][2] [L3][1]'' @ [nl, nl] @ ''[1]: http://a'' @ [nl] @ ''[2]: http://b'')"
  by code_simp

lemma trimEnd_dropWhile_edges:
  "trimEnd (dropWhile isTabOrBreak s) = [] \<or>
     (\<not> isTabOrBreak (hd (trimEnd (dropWhile isTabOrBreak s))) \<and>
      \<not> isWhitespace (last (trimEnd (dropWhile isTabOrBreak s))))"
proof (cases "trimEnd (dropWhile isTabOrBreak s) = []")
  case True
  then show ?thesis by simp
next
  case False
  then have ne: "dropWhile isTabOrBreak s \<noteq> []"
    by (cases "dropWhile isTabOrBreak s = []") (simp_all add: trimEnd_def)
  have "hd (trimEnd (dropWhile isTabOrBreak s)) = hd (dropWhile isTabOrBreak s)"
    using False by (rule trimEnd_hd)
  moreover have "\<not> isTabOrBreak (hd (dropWhile isTabOrBreak s))"
    using ne by (rule hd_dropWhile)
  moreover have "\<not> isWhitespace (last (trimEnd (dropWhile isTabOrBreak s)))"
    using False by (rule trimEnd_last)
  ultimately show ?thesis by simp
qed

text \<open>
  C8 (amended). After joining the text the \<^verbatim>\<open>append\<close> hooks return, \<open>postProcess\<close> removes
  the whole leading run of tabs, carriage returns and newlines, and then the whole trailing
  run of white space. So the final string is empty, or it starts with a character that is
  none of tab, carriage return and newline and ends with a character that is not white
  space. Leading spaces are not removed: the final string can start with a space.
\<close>

theorem postProcess_trims:
  "fst (postProcess rs out self) =
     trimEnd (dropWhile isTabOrBreak (fst (appendRules (array rs) (options rs) out self)))
   \<and> (fst (postProcess rs out self) = [] \<or>
       (\<not> isTabOrBreak (hd (fst (postProcess rs out self))) \<and>
        \<not> isWhitespace (last (fst (postProcess rs out self)))))"
proof -
  have e: "fst (postProcess rs out self) =
     trimEnd (dropWhile isTabOrBreak (fst (appendRules (array rs) (options rs) out self)))"
    by (simp add: postProcess_def split: prod.splits)
  show ?thesis
    unfolding e
    using trimEnd_dropWhile_edges [of "fst (appendRules (array rs) (options rs) out self)"]
    by simp
qed

definition indentedOutput :: string where
  "indentedOutput = [nl, nl] @ ''    code  '' @ [tab, nl, nl]"

lemma indentedOutput_postProcess:
  "fst (postProcess exampleRules indentedOutput emptyReferences) = ''    code''"
  by code_simp

theorem postProcess_trims_witness:
  "fst (postProcess exampleRules indentedOutput emptyReferences) = ''    code''
   \<and> \<not> isTabOrBreak (hd (fst (postProcess exampleRules indentedOutput emptyReferences)))
   \<and> \<not> isWhitespace (last (fst (postProcess exampleRules indentedOutput emptyReferences)))"
proof -
  have "fst (postProcess exampleRules indentedOutput emptyReferences) = [] \<or>
       (\<not> isTabOrBreak (hd (fst (postProcess exampleRules indentedOutput emptyReferences))) \<and>
        \<not> isWhitespace (last (fst (postProcess exampleRules indentedOutput emptyReferences))))"
    using postProcess_trims [of exampleRules indentedOutput emptyReferences] by (rule conjunct2)
  moreover have "fst (postProcess exampleRules indentedOutput emptyReferences) \<noteq> []"
    by (simp add: indentedOutput_postProcess)
  ultimately show ?thesis using indentedOutput_postProcess by blast
qed

text \<open>The claim as stated fails: with the indented code block style, a document that is one
  code block is rendered as a string that starts with four spaces, and \<open>postProcess\<close> leaves
  the spaces at the start of an output as they are.\<close>

definition indentedTurnish :: Turnish where
  "indentedTurnish =
     newTurnish (defaultOptions\<lparr> codeBlockStyle := Indented \<rparr>)
       [(''indentedCodeBlock'', defaultRules_indentedCodeBlock),
        (''fencedCodeBlock'', defaultRules_fencedCodeBlock)]
       blankReplacement (\<lambda>content e opts. Inr content) (\<lambda>content e opts. Inr content)
       defaultReplacement"

definition codeBlockRoot :: "InputType \<Rightarrow> TurnishOptions \<Rightarrow> node" where
  "codeBlockRoot input opts =
     Element ''BODY'' [] [Element ''PRE'' [] [Element ''CODE'' [] [Text ''code'']]]"

theorem postProcess_leading_space_counterexample:
  "fst (render indentedTurnish codeBlockRoot (JSString ''<pre><code>code</code></pre>'')
      emptyReferences) = Inr ''    code''
   \<and> fst (postProcess (rules indentedTurnish) ''  x'' emptyReferences) = ''  x''"
  by code_simp



lemma appendRules_invariant:
  "accumulatorInvariant self \<Longrightarrow> accumulatorInvariant (snd (appendRules rl opts out self))"
proof (induction rl opts out self rule: appendRules.induct)
  case (4 rl opts output' self)
  show ?case
  proof (cases "references self = []")
    case True
    then have "referenceLinkRule_append opts self = ([], self)"
      by (simp add: referenceLinkRule_append_def)
    with 4 show ?thesis by simp
  next
    case False
    then have "referenceLinkRule_append opts self =
        ([nl, nl] @ joinLines (references self) @ [nl, nl], emptyReferences)"
      by (simp add: referenceLinkRule_append_def)
    then have "snd (appendRules (referenceLinkRule # rl) opts output' self) = emptyReferences"
      by (simp add: appendRules_empty)
    then show ?thesis
      by (simp add: accumulatorInvariant_def emptyReferences_def)
  qed
qed simp_all

lemma postProcess_state:
  "snd (postProcess rs out self) = snd (appendRules (array rs) (options rs) out self)"
  by (simp add: postProcess_def case_prod_unfold Let_def)

lemma render_complete:
  assumes "fst (render t RootNode input self) = Inr out" and "input \<noteq> JSString []"
  obtains o1 s1 where
    "process (rules t) False [RootNode input (options (rules t))] None
       (childNodes (RootNode input (options (rules t)))) [] self = (Inr o1, s1)"
    and "render t RootNode input self = (Inr out, snd (postProcess (rules t) o1 s1))"
proof -
  let ?root = "RootNode input (options (rules t))"
  obtain res s1 where p: "process (rules t) False [?root] None (childNodes ?root) [] self
      = (res, s1)"
    by (cases "process (rules t) False [?root] None (childNodes ?root) [] self")
  from assms have c: "canConvert input = Inr True"
    by (auto simp: render_def split: sum.splits bool.splits)
  from assms c p obtain o1 where r: "res = Inr o1"
    by (cases res) (auto simp: render_def Let_def)
  from assms c p r have "render t RootNode input self = (Inr out, snd (postProcess (rules t) o1 s1))"
    by (auto simp: render_def Let_def split: prod.splits)
  with p r that show ?thesis by blast
qed

lemma render_invariant:
  assumes "accumulatorInvariant self"
  shows "accumulatorInvariant (snd (render t RootNode input self))"
proof (cases "canConvert input = Inr True \<and> input \<noteq> JSString []")
  case False
  with assms show ?thesis
    by (auto simp: render_def split: sum.splits bool.splits)
next
  case True
  let ?root = "RootNode input (options (rules t))"
  obtain res s1 where p: "process (rules t) False [?root] None (childNodes ?root) [] self
      = (res, s1)"
    by (cases "process (rules t) False [?root] None (childNodes ?root) [] self")
  from process_invariant(1) [OF assms, of "rules t" False "[?root]" None "childNodes ?root" "[]"] p
  have i: "accumulatorInvariant s1" by simp
  show ?thesis
  proof (cases res)
    case (Inl err)
    with True p i show ?thesis by (simp add: render_def Let_def)
  next
    case (Inr o1)
    have "snd (postProcess (rules t) o1 s1)
        = snd (appendRules (array (rules t)) (options (rules t)) o1 s1)"
      by (rule postProcess_state)
    with appendRules_invariant [OF i, of "array (rules t)" "options (rules t)" o1]
    have "accumulatorInvariant (snd (postProcess (rules t) o1 s1))" by simp
    with True p Inr show ?thesis by (auto simp: render_def Let_def split: prod.splits)
  qed
qed

lemma render_flushes:
  assumes "accumulatorInvariant self" and "referenceLinkRule \<in> set (array (rules t))"
    and "input \<noteq> JSString []" and "fst (render t RootNode input self) = Inr out"
  shows "snd (render t RootNode input self) = emptyReferences"
proof -
  from assms(4,3) obtain o1 s1 where
    p: "process (rules t) False [RootNode input (options (rules t))] None
       (childNodes (RootNode input (options (rules t)))) [] self = (Inr o1, s1)"
    and r: "render t RootNode input self = (Inr out, snd (postProcess (rules t) o1 s1))"
    by (rule render_complete)
  from process_invariant(1) [OF assms(1), of "rules t" False
      "[RootNode input (options (rules t))]" None
      "childNodes (RootNode input (options (rules t)))" "[]"] p
  have "accumulatorInvariant s1" by simp
  then have "snd (appendRules (array (rules t)) (options (rules t)) o1 s1) = emptyReferences"
    using assms(2) by (rule appendRules_flush)
  then have "snd (postProcess (rules t) o1 s1) = emptyReferences"
    by (simp add: postProcess_state)
  with r show ?thesis by simp
qed

lemma render_from_empty:
  assumes "statelessOutsideArray (rules t)"
    and "fst (render t RootNode input emptyReferences) = Inr out"
  shows "snd (render t RootNode input emptyReferences) = emptyReferences"
proof (cases "input = JSString []")
  case True
  then show ?thesis by (simp add: render_def canConvert_def)
next
  case False
  have inv0: "accumulatorInvariant emptyReferences"
    by (simp add: accumulatorInvariant_def emptyReferences_def)
  show ?thesis
  proof (cases "referenceLinkRule \<in> set (array (rules t))")
    case True
    from inv0 True False assms(2) show ?thesis by (rule render_flushes)
  next
    case notin: False
    from assms(2) False obtain o1 s1 where
      p: "process (rules t) False [RootNode input (options (rules t))] None
         (childNodes (RootNode input (options (rules t)))) [] emptyReferences = (Inr o1, s1)"
      and r: "render t RootNode input emptyReferences
         = (Inr out, snd (postProcess (rules t) o1 s1))"
      by (rule render_complete)
    from process_unchanged(1) [OF assms(1) notin, of False
        "[RootNode input (options (rules t))]" None
        "childNodes (RootNode input (options (rules t)))" "[]" emptyReferences] p
    have "s1 = emptyReferences" by simp
    then have "snd (postProcess (rules t) o1 s1) = emptyReferences"
      using notin by (simp add: postProcess_state appendRules_unchanged)
    with r show ?thesis by simp
  qed
qed

text \<open>
  C10 (amended). The append hook of the reference-link rule returns the accumulated
  references and empties both the list and the map whenever the list is not empty. For every
  engine made by the constructor and configured with \<open>addRule\<close>, \<open>keep\<close> and \<open>remove\<close>: every
  render, complete or not, leaves a state in which the map is empty whenever the list is, as
  the empty state of a new engine is; from such a state, a complete render of an input
  other than the empty string, on a table that holds the reference-link rule, leaves the
  state empty; and a complete render that starts from the empty state leaves it empty, so
  that the same render run once more returns the same output and leaves the state empty
  again.
\<close>

theorem render_repeatable:
  fixes opts :: TurnishOptions and table :: "(string \<times> Rule) list"
    and blankR keepR markdownR defaultR :: RuleReplacementFunction
    and cs :: "Configure list"
  defines "t \<equiv> foldl configure (newTurnish opts table blankR keepR markdownR defaultR) cs"
  shows "(\<forall>s. references s \<noteq> [] \<longrightarrow>
          referenceLinkRule_append (options (rules t)) s =
            ([nl, nl] @ joinLines (references s) @ [nl, nl], emptyReferences))
    \<and> accumulatorInvariant emptyReferences
    \<and> (accumulatorInvariant self \<longrightarrow> accumulatorInvariant (snd (render t RootNode input self)))
    \<and> (accumulatorInvariant self \<and> referenceLinkRule \<in> set (array (rules t)) \<and>
        input \<noteq> JSString [] \<and> fst (render t RootNode input self) = Inr out \<longrightarrow>
          snd (render t RootNode input self) = emptyReferences)
    \<and> (fst (render t RootNode input emptyReferences) = Inr out \<longrightarrow>
          snd (render t RootNode input emptyReferences) = emptyReferences \<and>
          render t RootNode input (snd (render t RootNode input emptyReferences))
            = (Inr out, emptyReferences))"
proof -
  have st: "statelessOutsideArray (rules t)"
    unfolding t_def
    by (rule statelessOutsideArray_configured)
       (simp add: newTurnish_def statelessOutsideArray_newRules)
  have a: "\<forall>s. references s \<noteq> [] \<longrightarrow>
          referenceLinkRule_append (options (rules t)) s =
            ([nl, nl] @ joinLines (references s) @ [nl, nl], emptyReferences)"
    by (simp add: referenceLinkRule_append_def)
  have b: "accumulatorInvariant emptyReferences"
    by (simp add: accumulatorInvariant_def emptyReferences_def)
  have c: "accumulatorInvariant self \<longrightarrow>
      accumulatorInvariant (snd (render t RootNode input self))"
    by (simp add: render_invariant)
  have d: "accumulatorInvariant self \<and> referenceLinkRule \<in> set (array (rules t)) \<and>
        input \<noteq> JSString [] \<and> fst (render t RootNode input self) = Inr out \<longrightarrow>
          snd (render t RootNode input self) = emptyReferences"
    using render_flushes [of self t input RootNode out] by blast
  have e: "snd (render t RootNode input emptyReferences) = emptyReferences \<and>
          render t RootNode input (snd (render t RootNode input emptyReferences))
            = (Inr out, emptyReferences)"
    if f: "fst (render t RootNode input emptyReferences) = Inr out"
  proof -
    from st f have s: "snd (render t RootNode input emptyReferences) = emptyReferences"
      by (rule render_from_empty)
    with f have "render t RootNode input emptyReferences = (Inr out, emptyReferences)"
      by (cases "render t RootNode input emptyReferences") simp
    with s show ?thesis by simp
  qed
  from a b c d e show ?thesis by blast
qed

definition staleReferences :: ReferenceLinkState where
  "staleReferences = snd (render exampleTurnish exampleRootNode linkAndImageHtml emptyReferences)"

lemma threeLinks_stale_output:
  "fst (render exampleTurnish exampleRootNode threeLinksHtml staleReferences)
     = Inr (''[L1][2] [L2][3] [L3][2]'' @ [nl, nl] @ ''[1]: http://c'' @ [nl] @ ''[2]: http://a''
            @ [nl] @ ''[3]: http://b'')"
  by code_simp

theorem render_repeatable_witness:
  "render exampleTurnish exampleRootNode threeLinksHtml emptyReferences
     = (Inr (''[L1][1] [L2][2] [L3][1]'' @ [nl, nl] @ ''[1]: http://a'' @ [nl] @ ''[2]: http://b''),
        emptyReferences)
   \<and> render exampleTurnish exampleRootNode threeLinksHtml
       (snd (render exampleTurnish exampleRootNode threeLinksHtml emptyReferences))
     = (Inr (''[L1][1] [L2][2] [L3][1]'' @ [nl, nl] @ ''[1]: http://a'' @ [nl] @ ''[2]: http://b''),
        emptyReferences)
   \<and> accumulatorInvariant staleReferences
   \<and> references staleReferences \<noteq> []
   \<and> snd (render exampleTurnish exampleRootNode threeLinksHtml staleReferences) = emptyReferences
   \<and> referenceLinkRule_append (options (rules exampleTurnish)) staleReferences
     = ([nl, nl] @ ''[1]: http://c'' @ [nl, nl], emptyReferences)"
proof -
  let ?out = "''[L1][1] [L2][2] [L3][1]'' @ [nl, nl] @ ''[1]: http://a'' @ [nl] @ ''[2]: http://b''"
  let ?stale = "''[L1][2] [L2][3] [L3][2]'' @ [nl, nl] @ ''[1]: http://c'' @ [nl]
      @ ''[2]: http://a'' @ [nl] @ ''[3]: http://b''"
  have all: "(\<forall>s. references s \<noteq> [] \<longrightarrow>
          referenceLinkRule_append (options (rules exampleTurnish)) s =
            ([nl, nl] @ joinLines (references s) @ [nl, nl], emptyReferences))
    \<and> accumulatorInvariant emptyReferences
    \<and> (accumulatorInvariant self \<longrightarrow>
          accumulatorInvariant (snd (render exampleTurnish exampleRootNode input self)))
    \<and> (accumulatorInvariant self \<and> referenceLinkRule \<in> set (array (rules exampleTurnish)) \<and>
        input \<noteq> JSString [] \<and> fst (render exampleTurnish exampleRootNode input self) = Inr out \<longrightarrow>
          snd (render exampleTurnish exampleRootNode input self) = emptyReferences)
    \<and> (fst (render exampleTurnish exampleRootNode input emptyReferences) = Inr out \<longrightarrow>
          snd (render exampleTurnish exampleRootNode input emptyReferences) = emptyReferences \<and>
          render exampleTurnish exampleRootNode input
              (snd (render exampleTurnish exampleRootNode input emptyReferences))
            = (Inr out, emptyReferences))" for self input out
    unfolding exampleTurnish_def by (rule render_repeatable)
  have inArray: "referenceLinkRule \<in> set (array (rules exampleTurnish))"
    by (simp add: exampleTurnish_def newTurnish_def newRules_def addRule_def add_def forIn_def
        isArrayIndex_def isDigit_def)
  have refs: "references staleReferences = [''[1]: http://c'']"
    by code_simp
  have ne: "threeLinksHtml \<noteq> JSString []"
    by (simp add: threeLinksHtml_def)
  from all [of emptyReferences threeLinksHtml ?out] threeLinks_output
  have s1: "snd (render exampleTurnish exampleRootNode threeLinksHtml emptyReferences)
      = emptyReferences"
    and second: "render exampleTurnish exampleRootNode threeLinksHtml
       (snd (render exampleTurnish exampleRootNode threeLinksHtml emptyReferences))
     = (Inr ?out, emptyReferences)"
    by blast+
  from s1 second have first:
    "render exampleTurnish exampleRootNode threeLinksHtml emptyReferences
       = (Inr ?out, emptyReferences)"
    by simp
  from all [of emptyReferences linkAndImageHtml ?out]
  have inv: "accumulatorInvariant staleReferences"
    unfolding staleReferences_def by blast
  from all [of staleReferences threeLinksHtml ?stale] inv inArray ne threeLinks_stale_output
  have flushed: "snd (render exampleTurnish exampleRootNode threeLinksHtml staleReferences)
      = emptyReferences"
    by blast
  from all [of staleReferences threeLinksHtml ?stale] refs
  have "referenceLinkRule_append (options (rules exampleTurnish)) staleReferences =
       ([nl, nl] @ joinLines (references staleReferences) @ [nl, nl], emptyReferences)"
    by simp
  with refs have hook: "referenceLinkRule_append (options (rules exampleTurnish)) staleReferences
     = ([nl, nl] @ ''[1]: http://c'' @ [nl, nl], emptyReferences)"
    by simp
  from first second inv refs flushed hook show ?thesis by simp
qed

text \<open>The claim as stated fails. A render that throws leaves the references it had
  accumulated: here the image without source throws after the link before it was
  converted. The next complete render numbers its links after the one left behind and
  appends the definition left behind to its own; the same render run once more returns the
  output of a new engine. And the render of the empty string, which completes, returns
  before the append hooks are called and leaves the state as it found it.\<close>

theorem render_repeatable_counterexample:
  "fst (render exampleTurnish exampleRootNode linkAndImageHtml emptyReferences)
     = Inl (Thrown ''image without src'')
   \<and> fst (render exampleTurnish exampleRootNode threeLinksHtml staleReferences)
     = Inr (''[L1][2] [L2][3] [L3][2]'' @ [nl, nl] @ ''[1]: http://c'' @ [nl] @ ''[2]: http://a''
            @ [nl] @ ''[3]: http://b'')
   \<and> fst (render exampleTurnish exampleRootNode threeLinksHtml
            (snd (render exampleTurnish exampleRootNode threeLinksHtml staleReferences)))
     = Inr (''[L1][1] [L2][2] [L3][1]'' @ [nl, nl] @ ''[1]: http://a'' @ [nl] @ ''[2]: http://b'')
   \<and> fst (render exampleTurnish exampleRootNode (JSString []) staleReferences) = Inr []
   \<and> references (snd (render exampleTurnish exampleRootNode (JSString []) staleReferences))
     = [''[1]: http://c'']"
  by code_simp

section \<open>Reference links in a rendered document\<close>



















end
